theory Spec2Isabelle
  imports Main "HOL-Library.Sublist" "HOL-Library.Multiset" "HOL-Library.AList"
begin

section \<open>Go library functions used by internal/github/github.go\<close>

text \<open>
  Go strings are byte sequences; they are modelled as \<open>string\<close> (a list of 8-bit
  characters). The functions of this section are not code of the repository: they are
  the parts of Go's \<open>strings\<close>, \<open>strconv\<close> and \<open>regexp\<close> packages that
  \<open>compareVersions\<close>, \<open>extractVersion\<close> and \<open>CreateDraftIssue\<close> call, written
  out as the Go documentation describes them.
\<close>

definition isDigit :: "char \<Rightarrow> bool" where
  "isDigit c = (c \<in> set ''0123456789'')"

definition digitVal :: "char \<Rightarrow> int" where
  "digitVal c = of_char c - 48"

text \<open>The accumulation \<open>n = n*10 + int(ch)\<close> of \<open>strconv\<close>, on unbounded numbers.\<close>

fun decimal :: "int \<Rightarrow> string \<Rightarrow> int" where
  "decimal n [] = n"
| "decimal n (c # cs) = decimal (n * 10 + digitVal c) cs"

definition allDigits :: "string \<Rightarrow> bool" where
  "allDigits s = (s \<noteq> [] \<and> list_all isDigit s)"

text \<open>Go's \<open>int\<close> on a 64-bit platform.\<close>

definition maxInt :: int where
  "maxInt = 2 ^ 63 - 1"

definition minInt :: int where
  "minInt = - (2 ^ 63)"

datatype NumError = ErrSyntax | ErrRange

definition maxUint64 :: int where
  "maxUint64 = 2 ^ 64 - 1"

text \<open>
  The loop of \<open>strconv.ParseUint\<close> for base 10 and 64 bits, on the digits read so
  far: a byte that is not a digit ends it with a syntax error and the value 0; a digit
  that would take the number beyond \<open>2^64 - 1\<close> ends it with a range error and the
  value \<open>2^64 - 1\<close>. The bytes are read from the left, so a range error comes before
  the syntax error of a later byte.
\<close>

fun scanDigits :: "int \<Rightarrow> string \<Rightarrow> int \<times> NumError option" where
  "scanDigits n [] = (n, None)"
| "scanDigits n (c # cs) =
     (if \<not> isDigit c then (0, Some ErrSyntax)
      else if n \<ge> maxUint64 div 10 + 1 then (maxUint64, Some ErrRange)
      else if n * 10 + digitVal c > maxUint64 then (maxUint64, Some ErrRange)
      else scanDigits (n * 10 + digitVal c) cs)"

definition ParseUint :: "string \<Rightarrow> int \<times> NumError option" where
  "ParseUint s = (if s = [] then (0, Some ErrSyntax) else scanDigits 0 s)"

text \<open>The leading sign that \<open>ParseInt\<close> and \<open>Atoi\<close> pick off.\<close>

definition stripSign :: "string \<Rightarrow> string" where
  "stripSign s =
     (case s of [] \<Rightarrow> [] | c # r \<Rightarrow> if c = CHR ''+'' \<or> c = CHR ''-'' then r else s)"

definition negative :: "string \<Rightarrow> bool" where
  "negative s = (case s of [] \<Rightarrow> False | c # r \<Rightarrow> c = CHR ''-'')"

text \<open>
  \<open>strconv.ParseInt(s, 10, 0)\<close>: a syntax error of \<open>ParseUint\<close> gives 0; otherwise a
  number outside the range of \<open>int\<close>, also the \<open>2^64 - 1\<close> of a range error of
  \<open>ParseUint\<close>, gives the nearest bound with a range error.
\<close>

definition ParseInt :: "string \<Rightarrow> int \<times> NumError option" where
  "ParseInt s =
     (if s = [] then (0, Some ErrSyntax)
      else case ParseUint (stripSign s) of
        (un, err) \<Rightarrow>
          if err = Some ErrSyntax then (0, Some ErrSyntax)
          else if \<not> negative s \<and> un \<ge> 2 ^ 63 then (maxInt, Some ErrRange)
          else if negative s \<and> un > 2 ^ 63 then (minInt, Some ErrRange)
          else if negative s then (- un, None)
          else (un, None))"

text \<open>The loop of the fast path of \<open>Atoi\<close>; \<open>None\<close> is its syntax error.\<close>

fun fastDigits :: "int \<Rightarrow> string \<Rightarrow> int option" where
  "fastDigits n [] = Some n"
| "fastDigits n (c # cs) =
     (if isDigit c then fastDigits (n * 10 + digitVal c) cs else None)"

text \<open>
  \<open>strconv.Atoi\<close>: the fast path for strings of 1 to 18 bytes, which cannot leave the
  range of \<open>int\<close>, and \<open>ParseInt\<close> for all others. It returns a value together with
  the error.
\<close>

definition Atoi :: "string \<Rightarrow> int \<times> NumError option" where
  "Atoi s =
     (if 0 < length s \<and> length s < 19 then
        (if stripSign s = [] then (0, Some ErrSyntax)
         else case fastDigits 0 (stripSign s) of
                None \<Rightarrow> (0, Some ErrSyntax)
              | Some n \<Rightarrow> (if negative s then - n else n, None))
      else ParseInt s)"

text \<open>\<open>strings.Split(s, ".")\<close>: the pieces between the dots, one more than there are dots.\<close>

fun Split :: "string \<Rightarrow> string list" where
  "Split [] = [[]]"
| "Split (c # cs) =
     (if c = CHR ''.'' then [] # Split cs
      else (case Split cs of [] \<Rightarrow> [[c]] | p # ps \<Rightarrow> (c # p) # ps))"

text \<open>\<open>strings.Contains(s, substr)\<close>.\<close>

fun Contains :: "string \<Rightarrow> string \<Rightarrow> bool" where
  "Contains [] substr = (substr = [])"
| "Contains (c # cs) substr = (prefix substr (c # cs) \<or> Contains cs substr)"

text \<open>
  \<open>strings.ToLower\<close> on ASCII text: the letters A to Z are mapped to a to z, every
  other byte is kept. Go also lower-cases the letters beyond ASCII (the Kelvin sign
  U+212A becomes \<open>k\<close>, for one), which this function leaves as they are: it stands for
  \<open>strings.ToLower\<close> on ASCII names only. The general statements below hold for
  any lower-casing, as their proofs never look into \<open>ToLower\<close>; the examples use
  ASCII names.
\<close>

definition toLowerChar :: "char \<Rightarrow> char" where
  "toLowerChar c =
     (case map_of (zip ''ABCDEFGHIJKLMNOPQRSTUVWXYZ'' ''abcdefghijklmnopqrstuvwxyz'') c of
        Some l \<Rightarrow> l
      | None \<Rightarrow> c)"

definition ToLower :: "string \<Rightarrow> string" where
  "ToLower s = map toLowerChar s"

text \<open>
  \<open>regexp.MustCompile(`v?(\d+)\.(\d+)`).FindStringSubmatch\<close>. \<open>matchHere s\<close> runs the
  pattern anchored at the start of \<open>s\<close>: the optional \<open>v\<close>, the longest run of digits
  (group 1), the dot, the longest run of digits (group 2). Giving back a \<open>v\<close> or a digit
  cannot help, because the next item of the pattern would have to match that very
  character. \<open>FindStringSubmatch\<close> tries the start positions from left to right and
  returns the two groups of the first match, \<open>None\<close> for Go's \<open>nil\<close>.
\<close>

definition skipV :: "string \<Rightarrow> string" where
  "skipV s = (case s of [] \<Rightarrow> [] | c # r \<Rightarrow> if c = CHR ''v'' then r else s)"

definition matchHere :: "string \<Rightarrow> (string \<times> string) option" where
  "matchHere s =
     (let d1 = takeWhile isDigit (skipV s);
          r1 = dropWhile isDigit (skipV s)
      in if d1 = [] then None
         else (case r1 of
                 [] \<Rightarrow> None
               | c # r2 \<Rightarrow>
                   if c = CHR ''.'' \<and> takeWhile isDigit r2 \<noteq> []
                   then Some (d1, takeWhile isDigit r2) else None))"

fun FindStringSubmatch :: "string \<Rightarrow> (string \<times> string) option" where
  "FindStringSubmatch [] = matchHere []"
| "FindStringSubmatch (c # cs) =
     (case matchHere (c # cs) of
        Some m \<Rightarrow> Some m
      | None \<Rightarrow> FindStringSubmatch cs)"

section \<open>The version utility\<close>

text \<open>\<open>extractVersion\<close> (github.go, lines 262 to 268).\<close>

definition extractVersion :: "string \<Rightarrow> string" where
  "extractVersion text =
     (case FindStringSubmatch text of
        Some (m1, m2) \<Rightarrow> m1 @ ''.'' @ m2
      | None \<Rightarrow> [])"

text \<open>
  \<open>compareVersions\<close> (github.go, lines 272 to 299). \<open>numAt parts i\<close> is the value of
  \<open>num1\<close> (or \<open>num2\<close>) in round \<open>i\<close> of the loop: the zero value of \<open>int\<close>, replaced by
  the number \<open>Atoi\<close> returns when \<open>i\<close> is within \<open>parts\<close>; the error is discarded.
\<close>

definition numAt :: "string list \<Rightarrow> nat \<Rightarrow> int" where
  "numAt parts i = (if i < length parts then fst (Atoi (parts ! i)) else 0)"

function cmpLoop :: "string list \<Rightarrow> string list \<Rightarrow> nat \<Rightarrow> nat \<Rightarrow> int" where
  "cmpLoop parts1 parts2 maxLen i =
     (if i < maxLen then
        (if numAt parts1 i > numAt parts2 i then 1
         else if numAt parts1 i < numAt parts2 i then - 1
         else cmpLoop parts1 parts2 maxLen (Suc i))
      else 0)"
  by pat_completeness auto
termination
  by (relation "measure (\<lambda>(parts1, parts2, maxLen, i). maxLen - i)") auto

declare cmpLoop.simps [simp del]

definition compareVersions :: "string \<Rightarrow> string \<Rightarrow> int" where
  "compareVersions v1 v2 =
     (let parts1 = Split v1;
          parts2 = Split v2;
          maxLen = (if length parts2 > length parts1 then length parts2 else length parts1)
      in cmpLoop parts1 parts2 maxLen 0)"

section \<open>Identifiers, fields and the remote client\<close>

text \<open>
  \<open>g4.ID\<close> is an empty interface type: the code assigns values of type \<open>interface{}\<close>
  to it and converts string constants to it. A value is either the nil interface (the
  zero value of a declared variable, or a JSON null) or holds a string. The comparison
  \<open>x != ""\<close> of the code is \<open>x \<noteq> StrID []\<close>: it holds for every non-empty string and
  for the nil interface.
\<close>

datatype g4_ID = NilID | StrID string

text \<open>\<open>fmt.Sprintf("%s", id)\<close>.\<close>

fun Sprintf_s :: "g4_ID \<Rightarrow> string" where
  "Sprintf_s (StrID s) = s"
| "Sprintf_s NilID = ''%!s(<nil>)''"

text \<open>
  A Go \<open>map[string]interface{}\<close> is kept as an association list with distinct keys;
  \<open>options[k] = v\<close> is \<^const>\<open>AList.update\<close>. The position of an entry in the list has
  no meaning: a \<open>range\<close> loop over a map visits the entries in an order that Go leaves
  unspecified, so every such loop of the code takes the order from a parameter (see
  \<open>resolveField\<close>).
\<close>

type_synonym gomap = "(string \<times> g4_ID) list"

record ProjectFieldInfo =
  ID :: g4_ID
  Name :: string
  Options :: gomap

text \<open>
  One element of \<open>query.Node.ProjectV2.Fields.Nodes\<close>: the type name and the two inline
  fragments. An option is the pair of its \<open>ID\<close> and its \<open>Name\<close>.
\<close>

record FieldNode =
  Typename :: string
  SingleSelect_ID :: g4_ID
  SingleSelect_Name :: string
  SingleSelect_Options :: "(g4_ID \<times> string) list"
  Iteration_ID :: g4_ID
  Iteration_Name :: string

text \<open>
  Go errors: \<open>errors.New(msg)\<close>, also standing for any error value the client returns,
  and \<open>fmt.Errorf(prefix ++ "%w", err)\<close>, which wraps \<open>err\<close>.
\<close>

datatype error = New string | Errorf string error

fun Error :: "error \<Rightarrow> string" where
  "Error (New msg) = msg"
| "Error (Errorf pre err) = pre @ Error err"

fun Unwrap :: "error \<Rightarrow> error option" where
  "Unwrap (New msg) = None"
| "Unwrap (Errorf pre err) = Some err"

text \<open>The three requests the code sends through \<open>githubClient\<close>.\<close>

datatype request =
    Query (ProjectID: g4_ID)
  | AddProjectV2DraftIssue (ProjectID: g4_ID) (Title: string) (Body: string)
  | UpdateProjectV2ItemFieldValue (ProjectID: g4_ID) (ItemID: g4_ID) (FieldID: g4_ID)
      (SingleSelectOptionID: string)

fun isUpdate :: "request \<Rightarrow> bool" where
  "isUpdate (UpdateProjectV2ItemFieldValue p i f v) = True"
| "isUpdate r = False"

fun isMutation :: "request \<Rightarrow> bool" where
  "isMutation (Query p) = False"
| "isMutation r = True"

record Client =
  AccessToken :: string

text \<open>
  The remote service is a parameter: it answers a request of a client given the
  requests sent before. \<open>Inl\<close> (or \<open>Some\<close>) is the error that \<open>Query\<close> or \<open>Mutate\<close>
  returns.
\<close>

record remote =
  onQuery :: "Client \<Rightarrow> request list \<Rightarrow> request \<Rightarrow> error + FieldNode list"
  onDraft :: "Client \<Rightarrow> request list \<Rightarrow> request \<Rightarrow> error + g4_ID"
  onUpdate :: "Client \<Rightarrow> request list \<Rightarrow> request \<Rightarrow> error option"

text \<open>What a run leaves behind: the requests sent, in order, and the lines printed.\<close>

record world =
  trace :: "request list"
  stdout :: "string list"

definition send :: "request \<Rightarrow> world \<Rightarrow> world" where
  "send r w = w\<lparr>trace := trace w @ [r]\<rparr>"

definition Printf :: "string \<Rightarrow> world \<Rightarrow> world" where
  "Printf line w = w\<lparr>stdout := stdout w @ [line]\<rparr>"

record ProjectManager =
  organization :: string
  projectID :: string
  fields' :: "(string \<times> ProjectFieldInfo) list"
  githubClient :: "Client option"

definition PROJECT_ID :: string where
  "PROJECT_ID = ''PVT_kwDOAM_34M4AAThW''"

definition ORGANIZATION :: string where
  "ORGANIZATION = ''kubernetes''"

text \<open>
  \<open>NewProjectManager\<close> (github.go, lines 48 to 57). \<open>g4.NewClient\<close> returns a client for
  every token, the empty one included; \<open>githubClient\<close> is \<open>None\<close> only in a
  \<open>ProjectManager\<close> built without it.
\<close>

definition NewProjectManager :: "string \<Rightarrow> ProjectManager" where
  "NewProjectManager token =
     \<lparr>organization = ORGANIZATION,
      projectID = PROJECT_ID,
      fields' = [],
      githubClient = Some \<lparr>AccessToken = token\<rparr>\<rparr>"

section \<open>Field discovery\<close>

text \<open>
  The body of the loop of \<open>GetProjectFields\<close> (github.go, lines 101 to 126):
  \<open>None\<close> is the \<open>continue\<close> of the default case.
\<close>

definition fieldOfNode :: "FieldNode \<Rightarrow> ProjectFieldInfo option" where
  "fieldOfNode node =
     (if Typename node = ''ProjectV2SingleSelectField'' then
        Some \<lparr>ID = SingleSelect_ID node,
              Name = SingleSelect_Name node,
              Options = fold (\<lambda>opt options. AList.update (snd opt) (fst opt) options)
                          (SingleSelect_Options node) []\<rparr>
      else if Typename node = ''ProjectV2IterationField'' then
        Some \<lparr>ID = Iteration_ID node, Name = Iteration_Name node, Options = []\<rparr>
      else None)"

fun collectFields :: "FieldNode list \<Rightarrow> ProjectFieldInfo list \<Rightarrow> ProjectFieldInfo list" where
  "collectFields [] acc = acc"
| "collectFields (node # nodes) acc =
     (case fieldOfNode node of
        None \<Rightarrow> collectFields nodes acc
      | Some f \<Rightarrow> collectFields nodes (acc @ [f]))"

text \<open>\<open>GetProjectFields\<close> (github.go, lines 60 to 129).\<close>

definition GetProjectFields ::
  "remote \<Rightarrow> ProjectManager \<Rightarrow> world \<Rightarrow> (error + ProjectFieldInfo list) \<times> world" where
  "GetProjectFields srv g w =
     (case githubClient g of
        None \<Rightarrow> (Inl (New ''github GraphQL client is nil''), w)
      | Some cl \<Rightarrow>
          (case onQuery srv cl (trace w) (Query (StrID (projectID g))) of
             Inl err \<Rightarrow>
               (Inl (Errorf ''failed to query project fields: '' err),
                send (Query (StrID (projectID g))) w)
           | Inr nodes \<Rightarrow>
               (Inr (collectFields nodes []), send (Query (StrID (projectID g))) w)))"

section \<open>Field resolution and the draft item\<close>

datatype role = Release | View | Status | Board

record targets =
  k8sReleaseFieldID :: g4_ID
  viewFieldID :: g4_ID
  statusFieldID :: g4_ID
  boardFieldID :: g4_ID
  k8sReleaseValueID :: g4_ID
  viewValueID :: g4_ID
  statusValueID :: g4_ID
  boardValueID :: g4_ID

text \<open>The zero values of the eight variables declared at lines 145 and 146.\<close>

definition noTargets :: targets where
  "noTargets =
     \<lparr>k8sReleaseFieldID = NilID, viewFieldID = NilID, statusFieldID = NilID,
      boardFieldID = NilID, k8sReleaseValueID = NilID, viewValueID = NilID,
      statusValueID = NilID, boardValueID = NilID\<rparr>"

text \<open>
  The loop at lines 157 to 165 over the entries in the order they are visited; the
  accumulator is \<open>(latestVersion, latestVersionID)\<close>.
\<close>

fun latestLoop :: "gomap \<Rightarrow> string \<times> g4_ID \<Rightarrow> string \<times> g4_ID" where
  "latestLoop [] acc = acc"
| "latestLoop ((optName, optID) # rest) (latestVersion, latestVersionID) =
     (if extractVersion optName \<noteq> [] then
        (if latestVersion = [] \<or> compareVersions (extractVersion optName) latestVersion > 0
         then latestLoop rest (extractVersion optName, optID)
         else latestLoop rest (latestVersion, latestVersionID))
      else latestLoop rest (latestVersion, latestVersionID))"

text \<open>
  The three loops at lines 175 to 181, 187 to 192 and 198 to 204 have one shape: the
  first visited entry whose name passes the test sets the value and breaks; \<open>cur\<close> is
  the value the variable had before the loop.
\<close>

fun firstMatch :: "(string \<Rightarrow> bool) \<Rightarrow> gomap \<Rightarrow> g4_ID \<Rightarrow> g4_ID" where
  "firstMatch test [] cur = cur"
| "firstMatch test ((optName, optID) # rest) cur =
     (if test optName then optID else firstMatch test rest cur)"

definition viewTest :: "string \<Rightarrow> bool" where
  "viewTest optName =
     (Contains (ToLower optName) ''issue-tracking'' \<or> Contains (ToLower optName) ''issue tracking'')"

definition boardTest :: "string \<Rightarrow> string \<Rightarrow> bool" where
  "boardTest board optName = Contains board (ToLower optName)"

definition statusTest :: "string \<Rightarrow> bool" where
  "statusTest optName =
     (Contains (ToLower optName) ''drafting'' \<or> Contains (ToLower optName) ''draft'')"

text \<open>
  The body of the loop over the discovered fields (lines 149 to 205). \<open>ord r m\<close> is the
  order in which the \<open>range\<close> loop of role \<open>r\<close> visits the entries of \<open>m\<close>; an order
  is admissible when it is a permutation of the entries (\<open>rangeOrder\<close>).
\<close>

definition resolveRelease :: "(gomap \<Rightarrow> gomap) \<Rightarrow> ProjectFieldInfo \<Rightarrow> targets \<Rightarrow> targets" where
  "resolveRelease ord field t =
     (if snd (latestLoop (ord (Options field)) ([], StrID [])) \<noteq> StrID []
      then t\<lparr>k8sReleaseFieldID := ID field,
             k8sReleaseValueID := snd (latestLoop (ord (Options field)) ([], StrID []))\<rparr>
      else t\<lparr>k8sReleaseFieldID := ID field\<rparr>)"

definition resolveField ::
  "(role \<Rightarrow> gomap \<Rightarrow> gomap) \<Rightarrow> string \<Rightarrow> ProjectFieldInfo \<Rightarrow> targets \<Rightarrow> targets" where
  "resolveField ord board field t0 =
     (let fieldNameLower = ToLower (Name field);
          t1 = (if Contains fieldNameLower ''k8s release''
                then resolveRelease (ord Release) field t0 else t0);
          t2 = (if Contains fieldNameLower ''view''
                then t1\<lparr>viewFieldID := ID field,
                        viewValueID :=
                          firstMatch viewTest (ord View (Options field)) (viewValueID t1)\<rparr>
                else t1);
          t3 = (if Contains fieldNameLower ''board''
                then t2\<lparr>boardFieldID := ID field,
                        boardValueID :=
                          firstMatch (boardTest board) (ord Board (Options field))
                            (boardValueID t2)\<rparr>
                else t2);
          t4 = (if Contains fieldNameLower ''status''
                then t3\<lparr>statusFieldID := ID field,
                        statusValueID :=
                          firstMatch statusTest (ord Status (Options field)) (statusValueID t3)\<rparr>
                else t3)
      in t4)"

text \<open>The loop at line 148; \<open>i\<close> counts the fields, so that every loop has its own order.\<close>

fun resolveLoop ::
  "(nat \<Rightarrow> role \<Rightarrow> gomap \<Rightarrow> gomap) \<Rightarrow> string \<Rightarrow> nat \<Rightarrow> ProjectFieldInfo list \<Rightarrow>
     targets \<Rightarrow> targets" where
  "resolveLoop ord board i [] t = t"
| "resolveLoop ord board i (field # rest) t =
     resolveLoop ord board (Suc i) rest (resolveField (ord i) board field t)"

definition rangeOrder :: "(nat \<Rightarrow> role \<Rightarrow> gomap \<Rightarrow> gomap) \<Rightarrow> bool" where
  "rangeOrder ord = (\<forall>i r m. mset (ord i r m) = mset m)"

record fieldUpdate =
  fieldID :: g4_ID
  optionID :: g4_ID
  fieldName :: string

text \<open>The slice \<open>fieldUpdates\<close> (lines 234 to 243).\<close>

definition fieldUpdates :: "targets \<Rightarrow> fieldUpdate list" where
  "fieldUpdates t =
     [\<lparr>fieldID = k8sReleaseFieldID t, optionID = k8sReleaseValueID t, fieldName = ''K8s Release''\<rparr>,
      \<lparr>fieldID = viewFieldID t, optionID = viewValueID t, fieldName = ''View''\<rparr>,
      \<lparr>fieldID = statusFieldID t, optionID = statusValueID t, fieldName = ''Status''\<rparr>,
      \<lparr>fieldID = boardFieldID t, optionID = boardValueID t, fieldName = ''Testgrid Board''\<rparr>]"

definition updateRequest :: "g4_ID \<Rightarrow> g4_ID \<Rightarrow> fieldUpdate \<Rightarrow> request" where
  "updateRequest pid itemID u =
     UpdateProjectV2ItemFieldValue pid itemID (fieldID u) (Sprintf_s (optionID u))"

definition warning :: "fieldUpdate \<Rightarrow> error \<Rightarrow> string" where
  "warning u err =
     ''Warning: failed to update '' @ fieldName u @ '' field: '' @ Error err @ [CHR 0x0A]"

text \<open>The loop at lines 245 to 257.\<close>

fun updateLoop ::
  "remote \<Rightarrow> Client \<Rightarrow> g4_ID \<Rightarrow> g4_ID \<Rightarrow> fieldUpdate list \<Rightarrow> world \<Rightarrow> world" where
  "updateLoop srv cl pid itemID [] w = w"
| "updateLoop srv cl pid itemID (u # rest) w =
     (if fieldID u \<noteq> StrID [] \<and> optionID u \<noteq> StrID [] then
        (case onUpdate srv cl (trace w) (updateRequest pid itemID u) of
           Some err \<Rightarrow>
             updateLoop srv cl pid itemID rest
               (Printf (warning u err) (send (updateRequest pid itemID u) w))
         | None \<Rightarrow>
             updateLoop srv cl pid itemID rest (send (updateRequest pid itemID u) w))
      else updateLoop srv cl pid itemID rest w)"

text \<open>\<open>CreateDraftIssue\<close> (github.go, lines 133 to 259).\<close>

definition CreateDraftIssue ::
  "remote \<Rightarrow> (nat \<Rightarrow> role \<Rightarrow> gomap \<Rightarrow> gomap) \<Rightarrow> ProjectManager \<Rightarrow>
     string \<Rightarrow> string \<Rightarrow> string \<Rightarrow> world \<Rightarrow> error option \<times> world" where
  "CreateDraftIssue srv ord g title body board w =
     (case githubClient g of
        None \<Rightarrow> (Some (New ''github GraphQL client is nil''), w)
      | Some cl \<Rightarrow>
          (case GetProjectFields srv g w of
             (Inl err, w1) \<Rightarrow> (Some (Errorf ''failed to get project fields: '' err), w1)
           | (Inr fs, w1) \<Rightarrow>
               (let t = resolveLoop ord board 0 fs noTargets;
                    inputDraft = AddProjectV2DraftIssue (StrID (projectID g)) title body
                in case onDraft srv cl (trace w1) inputDraft of
                     Inl err \<Rightarrow>
                       (Some (Errorf ''failed to create draft issue: '' err), send inputDraft w1)
                   | Inr itemID \<Rightarrow>
                       (None,
                        updateLoop srv cl (StrID (projectID g)) itemID (fieldUpdates t)
                          (send inputDraft w1)))))"

section \<open>Reference definitions, written from the specification\<close>

text \<open>
  The comparison the specification describes: the components of both strings, parsed
  by \<open>parse\<close>, the shorter list padded with zeros to the length of the longer, compared
  from the left; the first difference decides.
\<close>

fun lexCompare :: "int list \<Rightarrow> int list \<Rightarrow> int" where
  "lexCompare (x # xs) (y # ys) =
     (if x > y then 1 else if x < y then - 1 else lexCompare xs ys)"
| "lexCompare xs ys = 0"

definition padTo :: "nat \<Rightarrow> int list \<Rightarrow> int list" where
  "padTo n xs = xs @ replicate (n - length xs) 0"

definition compareVersions_spec :: "(string \<Rightarrow> int) \<Rightarrow> string \<Rightarrow> string \<Rightarrow> int" where
  "compareVersions_spec parse a b =
     (let xs = map parse (Split a);
          ys = map parse (Split b);
          n = max (length xs) (length ys)
      in lexCompare (padTo n xs) (padTo n ys))"

text \<open>
  A component read as an integer: an optional sign and decimal digits give their value,
  every other component gives 0.
\<close>

definition parseInteger :: "string \<Rightarrow> int" where
  "parseInteger s =
     (case s of
        [] \<Rightarrow> 0
      | c # r \<Rightarrow>
          if c = CHR ''-'' then (if allDigits r then - decimal 0 r else 0)
          else if c = CHR ''+'' then (if allDigits r then decimal 0 r else 0)
          else if allDigits s then decimal 0 s else 0)"

text \<open>
  A component that \<open>compareVersions\<close> reads as the integer it denotes: digits only, and
  a number within the range of a 64-bit \<open>int\<close>.
\<close>

definition inRange :: "string \<Rightarrow> bool" where
  "inRange p = (allDigits p \<and> decimal 0 p \<le> maxInt)"

text \<open>The pieces of a string put together again, with a dot between two of them.\<close>

fun joinDots :: "string list \<Rightarrow> string" where
  "joinDots [] = []"
| "joinDots [p] = p"
| "joinDots (p # q # ps) = p @ ''.'' @ joinDots (q # ps)"

text \<open>
  A well-formed version string: one or more components separated by dots, each of them
  one or more decimal digits.
\<close>

definition wellFormed :: "string \<Rightarrow> bool" where
  "wellFormed v = list_all allDigits (Split v)"

text \<open>
  An occurrence of the pattern of \<open>extractVersion\<close> in \<open>text\<close> at position \<open>i\<close>: from
  there on the text reads an optional \<open>v\<close>, digits, a dot and digits.
\<close>

definition occursAt :: "string \<Rightarrow> nat \<Rightarrow> bool" where
  "occursAt text i =
     (i \<le> length text \<and>
      (\<exists>v d1 d2 rest. drop i text = v @ d1 @ ''.'' @ d2 @ rest \<and>
         (v = [] \<or> v = ''v'') \<and> allDigits d1 \<and> allDigits d2))"

text \<open>The fields that discovery keeps: the nodes of the two known variants.\<close>

definition recognised :: "FieldNode \<Rightarrow> bool" where
  "recognised node =
     (Typename node = ''ProjectV2SingleSelectField'' \<or> Typename node = ''ProjectV2IterationField'')"

text \<open>An option list as pairs of display name and identifier.\<close>

definition byName :: "(g4_ID \<times> string) list \<Rightarrow> (string \<times> g4_ID) list" where
  "byName opts = map (\<lambda>opt. (snd opt, fst opt)) opts"

text \<open>The targets that pass the test of the update loop, in the order of \<open>fieldUpdates\<close>.\<close>

definition attempted :: "targets \<Rightarrow> fieldUpdate list" where
  "attempted t = filter (\<lambda>u. fieldID u \<noteq> StrID [] \<and> optionID u \<noteq> StrID []) (fieldUpdates t)"

text \<open>
  The answer of the service to the \<open>k\<close>-th of the requests \<open>reqs\<close>, sent one after the
  other after the requests \<open>h\<close>, and the lines that the failed ones leave on the output.
\<close>

definition answerAt :: "remote \<Rightarrow> Client \<Rightarrow> request list \<Rightarrow> request list \<Rightarrow> nat \<Rightarrow> error option" where
  "answerAt srv cl h reqs k = onUpdate srv cl (h @ take k reqs) (reqs ! k)"

definition warningLine :: "fieldUpdate \<Rightarrow> error option \<Rightarrow> string list" where
  "warningLine u answer = (case answer of Some err \<Rightarrow> [warning u err] | None \<Rightarrow> [])"

definition warningsOf ::
  "remote \<Rightarrow> Client \<Rightarrow> request list \<Rightarrow> g4_ID \<Rightarrow> g4_ID \<Rightarrow> fieldUpdate list \<Rightarrow> string list" where
  "warningsOf srv cl h pid itemID us =
     concat (map (\<lambda>k. warningLine (us ! k)
                         (answerAt srv cl h (map (updateRequest pid itemID) us) k))
                 [0..<length us])"

text \<open>The four roles: the name a field must contain, the test on its options, the variables.\<close>

fun roleKey :: "role \<Rightarrow> string" where
  "roleKey Release = ''k8s release''"
| "roleKey View = ''view''"
| "roleKey Status = ''status''"
| "roleKey Board = ''board''"

fun roleTest :: "string \<Rightarrow> role \<Rightarrow> string \<Rightarrow> bool" where
  "roleTest board Release optName = (extractVersion optName \<noteq> [])"
| "roleTest board View optName = viewTest optName"
| "roleTest board Status optName = statusTest optName"
| "roleTest board Board optName = boardTest board optName"

fun fieldIDOf :: "role \<Rightarrow> targets \<Rightarrow> g4_ID" where
  "fieldIDOf Release t = k8sReleaseFieldID t"
| "fieldIDOf View t = viewFieldID t"
| "fieldIDOf Status t = statusFieldID t"
| "fieldIDOf Board t = boardFieldID t"

fun valueIDOf :: "role \<Rightarrow> targets \<Rightarrow> g4_ID" where
  "valueIDOf Release t = k8sReleaseValueID t"
| "valueIDOf View t = viewValueID t"
| "valueIDOf Status t = statusValueID t"
| "valueIDOf Board t = boardValueID t"

text \<open>
  The Board value as the specification words it: the first option whose lower-cased name
  is part of the lower-cased board string, and no value when there is none.
\<close>

definition boardSelect_spec :: "string \<Rightarrow> gomap \<Rightarrow> g4_ID" where
  "boardSelect_spec board kvs =
     (case List.find (\<lambda>kv. Contains (ToLower board) (ToLower (fst kv))) kvs of
        Some kv \<Rightarrow> snd kv
      | None \<Rightarrow> NilID)"

section \<open>Orders, services and projects of the examples\<close>

text \<open>Two orders of visiting a map, and the nodes and services the examples use.\<close>

definition visitStored :: "nat \<Rightarrow> role \<Rightarrow> gomap \<Rightarrow> gomap" where
  "visitStored i r m = m"

definition visitReversed :: "nat \<Rightarrow> role \<Rightarrow> gomap \<Rightarrow> gomap" where
  "visitReversed i r m = rev m"

definition emptyWorld :: world where
  "emptyWorld = \<lparr>trace = [], stdout = []\<rparr>"

definition singleSelect :: "string \<Rightarrow> string \<Rightarrow> (g4_ID \<times> string) list \<Rightarrow> FieldNode" where
  "singleSelect fid name opts =
     \<lparr>Typename = ''ProjectV2SingleSelectField'', SingleSelect_ID = StrID fid,
      SingleSelect_Name = name, SingleSelect_Options = opts,
      Iteration_ID = NilID, Iteration_Name = []\<rparr>"

definition iteration :: "string \<Rightarrow> string \<Rightarrow> FieldNode" where
  "iteration fid name =
     \<lparr>Typename = ''ProjectV2IterationField'', SingleSelect_ID = NilID,
      SingleSelect_Name = [], SingleSelect_Options = [],
      Iteration_ID = StrID fid, Iteration_Name = name\<rparr>"

definition otherNode :: FieldNode where
  "otherNode =
     \<lparr>Typename = ''ProjectV2Field'', SingleSelect_ID = NilID,
      SingleSelect_Name = [], SingleSelect_Options = [],
      Iteration_ID = NilID, Iteration_Name = []\<rparr>"

text \<open>A service that rejects every request, as for a missing or wrong token.\<close>

definition rejecting :: remote where
  "rejecting =
     \<lparr>onQuery = (\<lambda>cl h r. Inl (New ''401 Unauthorized'')),
      onDraft = (\<lambda>cl h r. Inl (New ''401 Unauthorized'')),
      onUpdate = (\<lambda>cl h r. Some (New ''401 Unauthorized''))\<rparr>"

text \<open>
  A service with the fields \<open>nodes\<close> that creates the item \<open>ITEM\<close> and accepts every
  update except those of the field \<open>bad\<close>.
\<close>

definition serving :: "FieldNode list \<Rightarrow> g4_ID \<Rightarrow> remote" where
  "serving nodes bad =
     \<lparr>onQuery = (\<lambda>cl h r. Inr nodes),
      onDraft = (\<lambda>cl h r. Inr (StrID ''ITEM'')),
      onUpdate = (\<lambda>cl h r. if FieldID r = bad then Some (New ''timeout'') else None)\<rparr>"

text \<open>The same service, failing to create the item.\<close>

definition servingNoDraft :: "FieldNode list \<Rightarrow> remote" where
  "servingNoDraft nodes =
     \<lparr>onQuery = (\<lambda>cl h r. Inr nodes),
      onDraft = (\<lambda>cl h r. Inl (New ''timeout'')),
      onUpdate = (\<lambda>cl h r. None)\<rparr>"

text \<open>The fields of a project with one field for each role, as in the specification.\<close>

definition demoNodes :: "FieldNode list" where
  "demoNodes =
     [singleSelect ''F_release'' ''K8s Release''
        [(StrID ''id1'', ''v1.30''), (StrID ''id2'', ''v1.32''), (StrID ''id3'', ''stable'')],
      singleSelect ''F_view'' ''View'' [(StrID ''V1'', ''Issue-Tracking'')],
      singleSelect ''F_board'' ''Testgrid Board''
        [(StrID ''B1'', ''master-blocking''), (StrID ''B2'', ''master-informing'')],
      singleSelect ''F_status'' ''Status'' [(StrID ''S1'', ''Drafting'')]]"

text \<open>Two fields that both match the Status role; only the first has a draft option.\<close>

definition twoStatusNodes :: "FieldNode list" where
  "twoStatusNodes =
     [singleSelect ''F1'' ''Status'' [(StrID ''O1'', ''Drafting'')],
      singleSelect ''F2'' ''Old status'' [(StrID ''O2'', ''Done'')]]"

text \<open>A Release field with two options of the same version.\<close>

definition tieNodes :: "FieldNode list" where
  "tieNodes =
     [singleSelect ''F_release'' ''K8s Release''
        [(StrID ''id1'', ''v1.32''), (StrID ''id2'', ''1.32'')]]"

section \<open>Properties of the version utility\<close>

subsection \<open>\<open>Split\<close> and \<open>Contains\<close>\<close>

text \<open>
  The two string functions do what the Go documentation says: \<open>Split\<close> cuts at every
  dot and loses nothing else, \<open>Contains\<close> holds exactly for the contiguous parts.
\<close>

lemma Split_not_Nil: "Split s \<noteq> []"
  by (induction s) (auto split: list.splits)

lemma Split_length: "length (Split s) = Suc (count_list s CHR ''.'')"
  by (induction s) (auto simp: Split_not_Nil split: list.splits)

lemma Split_no_dot: "p \<in> set (Split s) \<Longrightarrow> CHR ''.'' \<notin> set p"
  by (induction s arbitrary: p) (auto split: list.splits if_splits)

lemma Split_join: "joinDots (Split s) = s"
proof (induction s)
  case Nil
  then show ?case by simp
next
  case (Cons c cs)
  obtain p ps where sp: "Split cs = p # ps" using Split_not_Nil [of cs] by (cases "Split cs") auto
  show ?case
  proof (cases "c = CHR ''.''")
    case True
    then show ?thesis using Cons sp by simp
  next
    case False
    then show ?thesis using Cons sp by (cases ps) auto
  qed
qed

lemma Contains_iff: "Contains s substr \<longleftrightarrow> (\<exists>pre post. s = pre @ substr @ post)"
proof (induction s)
  case Nil
  then show ?case by auto
next
  case (Cons c cs)
  show ?case
  proof
    assume "Contains (c # cs) substr"
    then consider "prefix substr (c # cs)" | "Contains cs substr" by auto
    then show "\<exists>pre post. c # cs = pre @ substr @ post"
    proof cases
      case 1
      then obtain post where "c # cs = substr @ post" by (auto simp: prefix_def)
      then have "c # cs = [] @ substr @ post" by simp
      then show ?thesis by blast
    next
      case 2
      with Cons obtain pre post where "cs = pre @ substr @ post" by blast
      then have "c # cs = (c # pre) @ substr @ post" by simp
      then show ?thesis by blast
    qed
  next
    assume "\<exists>pre post. c # cs = pre @ substr @ post"
    then obtain pre post where h: "c # cs = pre @ substr @ post" by blast
    show "Contains (c # cs) substr"
    proof (cases pre)
      case Nil
      with h have "prefix substr (c # cs)" by (simp add: prefix_def)
      then show ?thesis by simp
    next
      case (Cons a pre')
      with h have "cs = pre' @ substr @ post" by simp
      with Cons.IH have "Contains cs substr" by blast
      then show ?thesis by simp
    qed
  qed
qed

subsection \<open>\<open>Atoi\<close> and the loop of \<open>compareVersions\<close>\<close>

lemma digitVal_nonneg: "isDigit c \<Longrightarrow> 0 \<le> digitVal c"
  by (auto simp: isDigit_def digitVal_def)

lemma decimal_nonneg: "list_all isDigit ds \<Longrightarrow> 0 \<le> n \<Longrightarrow> 0 \<le> decimal n ds"
  by (induction ds arbitrary: n) (auto simp: digitVal_nonneg)

lemma decimal_mono: "list_all isDigit ds \<Longrightarrow> 0 \<le> n \<Longrightarrow> n \<le> decimal n ds"
proof (induction ds arbitrary: n)
  case Nil
  then show ?case by simp
next
  case (Cons c cs)
  then have d: "0 \<le> digitVal c" by (simp add: digitVal_nonneg)
  then have "n * 10 + digitVal c \<le> decimal (n * 10 + digitVal c) cs"
    using Cons by simp
  then show ?case using d Cons.prems by simp
qed

lemma fastDigits_decimal: "list_all isDigit ds \<Longrightarrow> fastDigits n ds = Some (decimal n ds)"
  by (induction ds arbitrary: n) auto

lemma scanDigits_decimal:
  "list_all isDigit ds \<Longrightarrow> 0 \<le> n \<Longrightarrow> decimal n ds \<le> maxUint64 \<Longrightarrow>
   scanDigits n ds = (decimal n ds, None)"
proof (induction ds arbitrary: n)
  case Nil
  then show ?case by simp
next
  case (Cons c cs)
  then have d: "0 \<le> digitVal c" and cs: "list_all isDigit cs" and c: "isDigit c"
    by (simp_all add: digitVal_nonneg)
  have le: "n * 10 + digitVal c \<le> maxUint64"
    using decimal_mono [OF cs, of "n * 10 + digitVal c"] Cons.prems d by simp
  then have "\<not> maxUint64 div 10 + 1 \<le> n"
    using d by (simp add: maxUint64_def)
  then show ?case
    using Cons.IH [OF cs, of "n * 10 + digitVal c"] Cons.prems d le c by simp
qed

text \<open>
  A component of digits only whose number is within the range of \<open>int\<close> is read as
  that number, on either path of \<open>Atoi\<close>.
\<close>

lemma stripSign_digits: "allDigits p \<Longrightarrow> stripSign p = p" and
  negative_digits: "allDigits p \<Longrightarrow> \<not> negative p"
  by (cases p; auto simp: stripSign_def negative_def allDigits_def isDigit_def)+

lemma Atoi_exact:
  assumes "allDigits p" "decimal 0 p \<le> maxInt"
  shows "fst (Atoi p) = decimal 0 p" and "parseInteger p = decimal 0 p"
proof -
  have dg: "list_all isDigit p" and ne: "p \<noteq> []" using assms(1) by (simp_all add: allDigits_def)
  have u: "decimal 0 p \<le> maxUint64" using assms(2) by (simp add: maxInt_def maxUint64_def)
  have lt: "\<not> 2 ^ 63 \<le> decimal 0 p" using assms(2) by (simp add: maxInt_def)
  show "fst (Atoi p) = decimal 0 p"
    using ne lt
    by (simp add: Atoi_def ParseInt_def ParseUint_def stripSign_digits [OF assms(1)]
        negative_digits [OF assms(1)] fastDigits_decimal [OF dg]
        scanDigits_decimal [OF dg _ u])
  show "parseInteger p = decimal 0 p"
  proof (cases p)
    case Nil
    with ne show ?thesis by simp
  next
    case (Cons c r)
    then have "isDigit c" using dg by simp
    then have "c \<noteq> CHR ''-''" "c \<noteq> CHR ''+''" by (auto simp: isDigit_def)
    then show ?thesis using Cons assms(1) by (simp add: parseInteger_def del: decimal.simps)
  qed
qed

lemma lexCompare_refl: "lexCompare xs xs = 0"
  by (induction xs) auto

lemma lexCompare_flip: "lexCompare xs ys = - lexCompare ys xs"
  by (induction xs ys rule: lexCompare.induct) auto

lemma lexCompare_range: "lexCompare xs ys \<in> {- 1, 0, 1}"
  by (induction xs ys rule: lexCompare.induct) auto

lemma lexCompare_trans:
  "length xs = length ys \<Longrightarrow> length ys = length zs \<Longrightarrow>
   lexCompare xs ys \<le> 0 \<Longrightarrow> lexCompare ys zs \<le> 0 \<Longrightarrow> lexCompare xs zs \<le> 0"
  by (induction xs ys zs rule: list_induct3) (auto split: if_splits)

lemma lexCompare_zeros: "lexCompare (replicate k 0) (replicate k 0) = 0"
  by (rule lexCompare_refl)

lemma lexCompare_append:
  "length xs = length ys \<Longrightarrow> lexCompare (xs @ us) (ys @ us) = lexCompare xs ys"
  by (induction xs ys rule: list_induct2) (auto simp: lexCompare_refl)

lemma padTo_length: "length xs \<le> n \<Longrightarrow> length (padTo n xs) = n"
  by (simp add: padTo_def)

lemma padTo_nth:
  "i < n \<Longrightarrow> length ps \<le> n \<Longrightarrow> padTo n (map (\<lambda>p. fst (Atoi p)) ps) ! i = numAt ps i"
  by (auto simp: padTo_def numAt_def nth_append)

lemma cmpLoop_lex:
  "length p1 \<le> n \<Longrightarrow> length p2 \<le> n \<Longrightarrow> i \<le> n \<Longrightarrow>
   cmpLoop p1 p2 n i =
     lexCompare (drop i (padTo n (map (\<lambda>p. fst (Atoi p)) p1)))
                (drop i (padTo n (map (\<lambda>p. fst (Atoi p)) p2)))"
proof (induction p1 p2 n i rule: cmpLoop.induct)
  case (1 parts1 parts2 maxLen i)
  let ?xs = "padTo maxLen (map (\<lambda>p. fst (Atoi p)) parts1)"
  let ?ys = "padTo maxLen (map (\<lambda>p. fst (Atoi p)) parts2)"
  show ?case
  proof (cases "i < maxLen")
    case False
    with 1 show ?thesis by (subst cmpLoop.simps) (simp add: padTo_length)
  next
    case True
    have lx: "length ?xs = maxLen" and ly: "length ?ys = maxLen"
      using 1 by (simp_all add: padTo_length)
    have dx: "drop i ?xs = numAt parts1 i # drop (Suc i) ?xs"
      using True lx 1 by (metis Cons_nth_drop_Suc padTo_nth)
    have dy: "drop i ?ys = numAt parts2 i # drop (Suc i) ?ys"
      using True ly 1 by (metis Cons_nth_drop_Suc padTo_nth)
    show ?thesis
      using True 1 by (subst cmpLoop.simps) (simp add: dx dy)
  qed
qed

lemma padTo_more:
  "length xs \<le> n \<Longrightarrow> n \<le> m \<Longrightarrow> padTo m xs = padTo n xs @ replicate (m - n) 0"
  by (simp add: padTo_def replicate_add [symmetric])

lemma compareVersions_spec_eq:
  "compareVersions a b = compareVersions_spec (\<lambda>p. fst (Atoi p)) a b"
proof -
  let ?n = "if length (Split a) < length (Split b) then length (Split b) else length (Split a)"
  have n: "?n = max (length (Split a)) (length (Split b))" by (simp add: max_def)
  have "cmpLoop (Split a) (Split b) ?n 0 =
     lexCompare (drop 0 (padTo ?n (map (\<lambda>p. fst (Atoi p)) (Split a))))
                (drop 0 (padTo ?n (map (\<lambda>p. fst (Atoi p)) (Split b))))"
    by (rule cmpLoop_lex) simp_all
  then show ?thesis
    unfolding compareVersions_def compareVersions_spec_def Let_def n by simp
qed

lemma compareVersions_pad:
  assumes "length (Split a) \<le> n" "length (Split b) \<le> n"
  shows "compareVersions a b =
     lexCompare (padTo n (map (\<lambda>p. fst (Atoi p)) (Split a)))
                (padTo n (map (\<lambda>p. fst (Atoi p)) (Split b)))"
proof -
  let ?m = "max (length (Split a)) (length (Split b))"
  have "?m \<le> n" using assms by simp
  then show ?thesis
    using assms
    by (simp add: compareVersions_spec_eq compareVersions_spec_def Let_def
        padTo_more [of _ ?m n] lexCompare_append padTo_length)
qed

lemma compareVersions_order:
  "compareVersions a a = 0 \<and>
   compareVersions a b = - compareVersions b a \<and>
   compareVersions a b \<in> {- 1, 0, 1} \<and>
   (compareVersions a b \<le> 0 \<longrightarrow> compareVersions b c \<le> 0 \<longrightarrow> compareVersions a c \<le> 0)"
proof -
  define n where "n = max (length (Split a)) (max (length (Split b)) (length (Split c)))"
  have la: "length (Split a) \<le> n" and lb: "length (Split b) \<le> n" and lc: "length (Split c) \<le> n"
    by (simp_all add: n_def)
  note ab = compareVersions_pad [OF la lb] and bc = compareVersions_pad [OF lb lc]
    and ac = compareVersions_pad [OF la lc] and aa = compareVersions_pad [OF la la]
    and ba = compareVersions_pad [OF lb la]
  have 1: "compareVersions a a = 0" by (simp add: aa lexCompare_refl)
  have 2: "compareVersions a b = - compareVersions b a"
    unfolding ab ba by (rule lexCompare_flip)
  have 3: "compareVersions a b \<in> {- 1, 0, 1}" unfolding ab by (rule lexCompare_range)
  have 4: "compareVersions a b \<le> 0 \<longrightarrow> compareVersions b c \<le> 0 \<longrightarrow> compareVersions a c \<le> 0"
    unfolding ab bc ac using la lb lc
    by (auto intro!: lexCompare_trans [where ys = "padTo n (map (\<lambda>p. fst (Atoi p)) (Split b))"]
        simp: padTo_length)
  from 1 2 3 4 show ?thesis by blast
qed

lemma compareVersions_le_less:
  assumes "compareVersions a b \<le> 0" "compareVersions b c < 0"
  shows "compareVersions a c < 0"
proof (rule ccontr)
  assume "\<not> compareVersions a c < 0"
  then have "compareVersions c a \<le> 0"
    using compareVersions_order [of a c c] by linarith
  then have "compareVersions c b \<le> 0"
    using assms(1) compareVersions_order [of c a b] by blast
  then show False
    using assms(2) compareVersions_order [of b c c] by linarith
qed

lemma compareVersions_less_le:
  assumes "compareVersions a b < 0" "compareVersions b c \<le> 0"
  shows "compareVersions a c < 0"
proof (rule ccontr)
  assume "\<not> compareVersions a c < 0"
  then have "compareVersions c a \<le> 0"
    using compareVersions_order [of a c c] by linarith
  then have "compareVersions b a \<le> 0"
    using assms(2) compareVersions_order [of b c a] by blast
  then show False
    using assms(1) compareVersions_order [of a b c] by linarith
qed

lemmas version_eval = compareVersions_spec_eq compareVersions_spec_def Let_def padTo_def
  Atoi_def ParseInt_def ParseUint_def stripSign_def negative_def parseInteger_def
  allDigits_def isDigit_def digitVal_def maxInt_def minInt_def maxUint64_def

subsection \<open>Claims about \<open>compareVersions\<close>\<close>

lemma compareVersions_in_range:
  assumes "list_all inRange (Split a)" "list_all inRange (Split b)"
  shows "compareVersions a b = compareVersions_spec parseInteger a b"
proof -
  have m: "map (\<lambda>p. fst (Atoi p)) ps = map parseInteger ps" if "list_all inRange ps" for ps
    using that by (induction ps) (simp_all add: inRange_def Atoi_exact)
  show ?thesis
    unfolding compareVersions_spec_eq compareVersions_spec_def m [OF assms(1)] m [OF assms(2)]
    by (rule refl)
qed

text \<open>
  Claim C6. \<open>compareVersions\<close> is to split both strings at the dots, pad the shorter
  list of components with zeros, read a component that is not a number as 0, compare
  the components as integers from the left and return the first non-zero comparison,
  else 0. The code does so wherever the components are within the range of \<open>int\<close>
  (\<open>compareVersions_in_range\<close>), and the examples \<open>compareVersions("1.32", "1.4") = 1\<close>
  and \<open>compareVersions("1.30", "1.30.0") = 0\<close> hold. It departs from the claim where
  \<open>Atoi\<close> reports a range error, because lines 284 and 287 discard the error and keep
  the bound that comes with it: two well-formed strings that differ as integers compare
  as equal, against the comment of the function (\<open>0 if equal\<close>), and a component that
  is not a number counts as \<open>2^63 - 1\<close> instead of 0 when its leading digits overflow.
\<close>

theorem compareVersions_overflow:
  "wellFormed ''9223372036854775808'' \<and> wellFormed ''9223372036854775807'' \<and>
   compareVersions_spec parseInteger ''9223372036854775808'' ''9223372036854775807'' = 1 \<and>
   compareVersions ''9223372036854775808'' ''9223372036854775807'' = 0 \<and>
   compareVersions_spec parseInteger ''99999999999999999999x'' ''1'' = - 1 \<and>
   compareVersions ''99999999999999999999x'' ''1'' = 1 \<and>
   compareVersions ''1.32'' ''1.4'' = 1 \<and>
   compareVersions ''1.30'' ''1.30.0'' = 0"
proof -
  have "wellFormed ''9223372036854775808''" "wellFormed ''9223372036854775807''"
    by (simp_all add: wellFormed_def allDigits_def isDigit_def)
  moreover have
    "compareVersions_spec parseInteger ''9223372036854775808'' ''9223372036854775807'' = 1"
    by (simp add: compareVersions_spec_def Let_def padTo_def parseInteger_def allDigits_def
        isDigit_def digitVal_def)
  moreover have "compareVersions ''9223372036854775808'' ''9223372036854775807'' = 0"
    by (simp add: version_eval)
  moreover have "compareVersions_spec parseInteger ''99999999999999999999x'' ''1'' = - 1"
    by (simp add: compareVersions_spec_def Let_def padTo_def parseInteger_def allDigits_def
        isDigit_def digitVal_def)
  moreover have "compareVersions ''99999999999999999999x'' ''1'' = 1"
    by (simp add: version_eval)
  moreover have "compareVersions ''1.32'' ''1.4'' = 1"
    by (simp add: version_eval)
  moreover have "compareVersions ''1.30'' ''1.30.0'' = 0"
    by (simp add: version_eval)
  ultimately show ?thesis by blast
qed

text \<open>
  Claim C7. \<open>compareVersions\<close> is a total order on version strings: \<open>compare(a, a) = 0\<close>,
  \<open>compare(a, b) = - compare(b, a)\<close>, every result is one of -1, 0 and 1, and
  \<open>compare(a, b) \<le> 0\<close> with \<open>compare(b, c) \<le> 0\<close> gives \<open>compare(a, c) \<le> 0\<close>. This holds
  for all strings, so in particular for the well-formed dotted-numeric ones.
\<close>

theorem compareVersions_total_order:
  "compareVersions a a = 0 \<and>
   compareVersions a b = - compareVersions b a \<and>
   compareVersions a b \<in> {- 1, 0, 1} \<and>
   (compareVersions a b \<le> 0 \<longrightarrow> compareVersions b c \<le> 0 \<longrightarrow> compareVersions a c \<le> 0)"
  by (rule compareVersions_order)

theorem compareVersions_total_order_witness:
  "wellFormed ''1.30'' \<and> wellFormed ''1.31.0'' \<and> wellFormed ''1.32'' \<and>
   compareVersions ''1.30'' ''1.31.0'' \<le> 0 \<and> compareVersions ''1.31.0'' ''1.32'' \<le> 0 \<and>
   compareVersions ''1.30'' ''1.32'' \<le> 0"
proof -
  have wf: "wellFormed ''1.30''" "wellFormed ''1.31.0''" "wellFormed ''1.32''"
    by (simp_all add: wellFormed_def allDigits_def isDigit_def)
  have ab: "compareVersions ''1.30'' ''1.31.0'' \<le> 0"
    by (simp add: version_eval)
  have bc: "compareVersions ''1.31.0'' ''1.32'' \<le> 0"
    by (simp add: version_eval)
  from compareVersions_total_order [of "''1.30''" "''1.31.0''" "''1.32''"] ab bc
  have "compareVersions ''1.30'' ''1.32'' \<le> 0" by blast
  with wf ab bc show ?thesis by blast
qed

subsection \<open>The pattern match of \<open>extractVersion\<close>\<close>

lemma not_digit_dot: "\<not> isDigit CHR ''.''" and not_digit_v: "\<not> isDigit CHR ''v''"
  by (simp_all add: isDigit_def)

lemma takeWhile_digits:
  "list_all isDigit d \<Longrightarrow> takeWhile isDigit (d @ r) = d @ takeWhile isDigit r"
  by (induction d) auto

lemma dropWhile_digits:
  "list_all isDigit d \<Longrightarrow> dropWhile isDigit (d @ r) = dropWhile isDigit r"
  by (induction d) auto

lemma skipV_digits: "allDigits d \<Longrightarrow> skipV (d @ r) = d @ r"
  by (cases d) (auto simp: skipV_def allDigits_def not_digit_v)

lemma skipV_v: "skipV (''v'' @ r) = r"
  by (simp add: skipV_def)

lemma matchHere_digits:
  assumes "allDigits d1" "allDigits d2"
  shows "matchHere (d1 @ ''.'' @ d2 @ rest) = Some (d1, d2 @ takeWhile isDigit rest)"
  using assms
  by (simp add: matchHere_def Let_def skipV_digits takeWhile_digits dropWhile_digits
      allDigits_def not_digit_dot)

lemma matchHere_skipV: "skipV s = skipV t \<Longrightarrow> matchHere s = matchHere t"
  by (simp add: matchHere_def)

lemma matchHere_v:
  assumes "allDigits d1" "allDigits d2"
  shows "matchHere (''v'' @ d1 @ ''.'' @ d2 @ rest) = Some (d1, d2 @ takeWhile isDigit rest)"
proof -
  have "skipV (''v'' @ d1 @ ''.'' @ d2 @ rest) = skipV (d1 @ ''.'' @ d2 @ rest)"
    using assms(1) by (simp only: skipV_v skipV_digits)
  from matchHere_skipV [OF this] show ?thesis
    using matchHere_digits [OF assms] by simp
qed

lemma matchHere_decomp:
  assumes "s = v @ d1 @ ''.'' @ d2 @ rest" "v = [] \<or> v = ''v''" "allDigits d1" "allDigits d2"
  shows "matchHere s = Some (d1, d2 @ takeWhile isDigit rest)"
  using assms matchHere_digits [of d1 d2 rest] matchHere_v [of d1 d2 rest] by auto

lemma takeWhile_stop: "rest = [] \<or> \<not> isDigit (hd rest) \<Longrightarrow> takeWhile isDigit rest = []"
  by (cases rest) auto

lemma skipV_split: "\<exists>v. (v = [] \<or> v = ''v'') \<and> s = v @ skipV s"
  by (cases s) (auto simp: skipV_def)

lemma matchHere_SomeD:
  assumes "matchHere s = Some (d1, d2)"
  shows "\<exists>v rest. s = v @ d1 @ ''.'' @ d2 @ rest \<and> (v = [] \<or> v = ''v'') \<and>
           allDigits d1 \<and> allDigits d2 \<and> (rest = [] \<or> \<not> isDigit (hd rest))"
proof -
  obtain v where v: "v = [] \<or> v = ''v''" "s = v @ skipV s"
    using skipV_split by blast
  let ?t = "skipV s"
  from assms have d1: "d1 = takeWhile isDigit ?t" "d1 \<noteq> []"
    by (auto simp: matchHere_def Let_def split: if_splits list.splits)
  from assms obtain r2 where r2: "dropWhile isDigit ?t = CHR ''.'' # r2"
    "d2 = takeWhile isDigit r2" "d2 \<noteq> []"
    by (auto simp: matchHere_def Let_def split: if_splits list.splits)
  have "?t = d1 @ ''.'' @ d2 @ dropWhile isDigit r2"
    using d1 r2 by (metis append_Cons append_Nil takeWhile_dropWhile_id)
  moreover have "allDigits d1" "allDigits d2"
    using d1 r2 by (auto simp: allDigits_def list_all_iff dest: set_takeWhileD)
  moreover have "dropWhile isDigit r2 = [] \<or> \<not> isDigit (hd (dropWhile isDigit r2))"
    by (metis hd_dropWhile)
  ultimately show ?thesis using v by metis
qed

lemma occursAt_iff: "occursAt text i \<longleftrightarrow> i \<le> length text \<and> matchHere (drop i text) \<noteq> None"
proof
  assume "occursAt text i"
  then show "i \<le> length text \<and> matchHere (drop i text) \<noteq> None"
    unfolding occursAt_def using matchHere_decomp by fastforce
next
  assume a: "i \<le> length text \<and> matchHere (drop i text) \<noteq> None"
  then obtain d1 d2 where "matchHere (drop i text) = Some (d1, d2)" by auto
  from matchHere_SomeD [OF this] a show "occursAt text i"
    unfolding occursAt_def by blast
qed

lemma Find_None: "FindStringSubmatch s = None \<longleftrightarrow> (\<forall>i\<le>length s. matchHere (drop i s) = None)"
proof (induction s)
  case Nil
  then show ?case by simp
next
  case (Cons c cs)
  show ?case
  proof
    assume l: "FindStringSubmatch (c # cs) = None"
    then have h: "matchHere (c # cs) = None" "FindStringSubmatch cs = None"
      by (auto split: option.splits)
    show "\<forall>i\<le>length (c # cs). matchHere (drop i (c # cs)) = None"
    proof (intro allI impI)
      fix i assume "i \<le> length (c # cs)"
      then show "matchHere (drop i (c # cs)) = None"
        using h Cons by (cases i) auto
    qed
  next
    assume r: "\<forall>i\<le>length (c # cs). matchHere (drop i (c # cs)) = None"
    then have "matchHere (c # cs) = None" by (metis drop0 le0)
    moreover have "\<forall>i\<le>length cs. matchHere (drop i cs) = None"
    proof (intro allI impI)
      fix i assume "i \<le> length cs"
      then show "matchHere (drop i cs) = None" using r [rule_format, of "Suc i"] by simp
    qed
    ultimately show "FindStringSubmatch (c # cs) = None" using Cons by simp
  qed
qed

lemma Find_first:
  "i \<le> length s \<Longrightarrow> matchHere (drop i s) = Some m \<Longrightarrow>
   (\<forall>j<i. matchHere (drop j s) = None) \<Longrightarrow> FindStringSubmatch s = Some m"
proof (induction s arbitrary: i)
  case Nil
  then show ?case by simp
next
  case (Cons c cs)
  show ?case
  proof (cases i)
    case 0
    with Cons.prems show ?thesis by simp
  next
    case (Suc k)
    have "matchHere (c # cs) = None" using Cons.prems(3) Suc by (metis drop0 zero_less_Suc)
    moreover have "FindStringSubmatch cs = Some m"
    proof (rule Cons.IH [of k])
      show "k \<le> length cs" using Cons.prems Suc by simp
      show "matchHere (drop k cs) = Some m" using Cons.prems Suc by simp
      show "\<forall>j<k. matchHere (drop j cs) = None"
        using Cons.prems(3) Suc by (metis Suc_less_eq drop_Suc_Cons)
    qed
    ultimately show ?thesis by simp
  qed
qed

lemma extractVersion_empty_iff: "extractVersion text = [] \<longleftrightarrow> (\<forall>i. \<not> occursAt text i)"
proof -
  have "extractVersion text = [] \<longleftrightarrow> FindStringSubmatch text = None"
    by (auto simp: extractVersion_def split: option.splits)
  then show ?thesis by (auto simp: Find_None occursAt_iff)
qed

lemma extractVersion_leftmost:
  assumes "text = pre @ v @ d1 @ ''.'' @ d2 @ rest" "v = [] \<or> v = ''v''"
    "allDigits d1" "allDigits d2" "rest = [] \<or> \<not> isDigit (hd rest)"
    "\<forall>i<length pre. \<not> occursAt text i"
  shows "extractVersion text = d1 @ ''.'' @ d2"
proof -
  have d: "drop (length pre) text = v @ d1 @ ''.'' @ d2 @ rest" using assms(1) by simp
  have "matchHere (drop (length pre) text) = Some (d1, d2 @ takeWhile isDigit rest)"
    using matchHere_decomp [OF d assms(2,3,4)] .
  then have m: "matchHere (drop (length pre) text) = Some (d1, d2)"
    using takeWhile_stop [OF assms(5)] by simp
  have le: "length pre \<le> length text" using assms(1) by simp
  have "matchHere (drop j text) = None" if "j < length pre" for j
  proof -
    from assms(6) that have "\<not> occursAt text j" by blast
    moreover have "j \<le> length text" using that le by simp
    ultimately show ?thesis by (cases "matchHere (drop j text)") (auto simp: occursAt_iff)
  qed
  then have "\<forall>j<length pre. matchHere (drop j text) = None" by blast
  from Find_first [OF le m this] show ?thesis by (simp add: extractVersion_def)
qed

lemmas extract_eval = extractVersion_def matchHere_def skipV_def isDigit_def

text \<open>
  Claim C8. \<open>extractVersion\<close> returns the digits, the dot and the digits of the first
  occurrence of the pattern (an optional \<open>v\<close>, digits, a dot, digits) in the text,
  without the \<open>v\<close>: when the text reads \<open>pre\<close>, then the match, then \<open>rest\<close>, the second
  run of digits ends where \<open>rest\<close> begins, and no occurrence starts inside \<open>pre\<close>, the
  result is \<open>d1.d2\<close>. The result is the empty string exactly when the pattern occurs
  nowhere. In particular \<open>extractVersion("v1.32 stable") = "1.32"\<close>,
  \<open>extractVersion("1.30") = "1.30"\<close> and \<open>extractVersion("latest") = ""\<close>.
\<close>

theorem extractVersion_first_match:
  "(text = pre @ v @ d1 @ ''.'' @ d2 @ rest \<longrightarrow> (v = [] \<or> v = ''v'') \<longrightarrow>
      allDigits d1 \<longrightarrow> allDigits d2 \<longrightarrow> (rest = [] \<or> \<not> isDigit (hd rest)) \<longrightarrow>
      (\<forall>i<length pre. \<not> occursAt text i) \<longrightarrow>
      extractVersion text = d1 @ ''.'' @ d2) \<and>
   (extractVersion text = [] \<longleftrightarrow> (\<forall>i. \<not> occursAt text i)) \<and>
   extractVersion ''v1.32 stable'' = ''1.32'' \<and>
   extractVersion ''1.30'' = ''1.30'' \<and>
   extractVersion ''latest'' = []"
proof -
  have "extractVersion ''v1.32 stable'' = ''1.32''" by (simp add: extract_eval)
  moreover have "extractVersion ''1.30'' = ''1.30''" by (simp add: extract_eval)
  moreover have "extractVersion ''latest'' = []" by (simp add: extract_eval)
  ultimately show ?thesis
    using extractVersion_leftmost [of "text" pre v d1 d2 rest] extractVersion_empty_iff [of "text"]
    by blast
qed

theorem extractVersion_first_match_witness:
  "allDigits ''1'' \<and> allDigits ''32'' \<and>
   \<not> occursAt ''rc v1.32 stable'' 0 \<and> \<not> occursAt ''rc v1.32 stable'' 1 \<and>
   \<not> occursAt ''rc v1.32 stable'' 2 \<and> occursAt ''rc v1.32 stable'' 3 \<and>
   extractVersion ''rc v1.32 stable'' = ''1.32''"
proof -
  have d: "allDigits ''1''" "allDigits ''32''"
    by (simp_all add: allDigits_def isDigit_def)
  have n: "\<not> occursAt ''rc v1.32 stable'' 0" "\<not> occursAt ''rc v1.32 stable'' 1"
    "\<not> occursAt ''rc v1.32 stable'' 2"
    by (simp_all add: occursAt_iff extract_eval)
  have y: "occursAt ''rc v1.32 stable'' 3"
    by (simp add: occursAt_iff extract_eval)
  have early: "\<forall>i<length ''rc ''. \<not> occursAt ''rc v1.32 stable'' i"
    using n by (simp add: All_less_Suc numeral_2_eq_2)
  have "extractVersion ''rc v1.32 stable'' = ''1'' @ ''.'' @ ''32''"
    using extractVersion_first_match
      [of "''rc v1.32 stable''" "''rc ''" "''v''" "''1''" "''32''" "'' stable''"] d early
    by (simp add: isDigit_def)
  with d n y show ?thesis by simp
qed

section \<open>Properties of field discovery\<close>

lemma fold_update_map_of:
  "map_of (fold (\<lambda>opt options. AList.update (snd opt) (fst opt) options) opts m) =
     map_of m ++ map_of (rev (byName opts))"
proof (induction opts arbitrary: m)
  case Nil
  then show ?case by (simp add: byName_def)
next
  case (Cons opt opts)
  have "(map_of m)(snd opt \<mapsto> fst opt) = map_of m ++ [snd opt \<mapsto> fst opt]"
    by simp
  then show ?case
    using Cons [of "AList.update (snd opt) (fst opt) m"]
    by (simp add: byName_def update_conv' map_add_assoc del: map_add_upd fun_upd_apply)
qed

lemma fold_update_distinct:
  "distinct (map fst m) \<Longrightarrow>
   distinct (map fst (fold (\<lambda>opt options. AList.update (snd opt) (fst opt) options) opts m))"
  by (induction opts arbitrary: m) (simp_all add: distinct_update)

lemma fold_update_keys:
  "fst ` set (fold (\<lambda>opt options. AList.update (snd opt) (fst opt) options)
                (opts :: (g4_ID \<times> string) list) m) =
     fst ` set m \<union> snd ` set opts"
proof -
  have "dom (map_of (fold (\<lambda>opt options. AList.update (snd opt) (fst opt) options) opts m)) =
      dom (map_of m) \<union> dom (map_of (rev (byName opts)))"
    by (simp add: fold_update_map_of Un_commute)
  then show ?thesis by (simp add: dom_map_of_conv_image_fst byName_def image_image)
qed

lemma map_of_byName_distinct:
  assumes "distinct (map snd opts)" "(i, n) \<in> set opts"
  shows "map_of (rev (byName opts)) n = Some i"
proof -
  have "distinct (map fst (rev (byName opts)))"
    using assms(1) by (simp add: byName_def rev_map [symmetric] comp_def)
  moreover have "(n, i) \<in> set (rev (byName opts))"
    using assms(2) by (force simp: byName_def)
  ultimately show ?thesis by (rule map_of_is_SomeI)
qed

lemma collectFields_acc:
  "collectFields nodes acc = acc @ map (the \<circ> fieldOfNode) (filter recognised nodes)"
proof (induction nodes arbitrary: acc)
  case Nil
  then show ?case by simp
next
  case (Cons node nodes)
  then show ?case by (auto simp: fieldOfNode_def recognised_def)
qed

lemma GetProjectFields_ok:
  assumes "githubClient g = Some cl"
    and "onQuery srv cl (trace w) (Query (StrID (projectID g))) = Inr nodes"
  shows "GetProjectFields srv g w =
    (Inr (map (the \<circ> fieldOfNode) (filter recognised nodes)), send (Query (StrID (projectID g))) w)"
  using assms by (simp add: GetProjectFields_def collectFields_acc)

lemmas node_eval = singleSelect_def iteration_def otherNode_def recognised_def fieldOfNode_def

text \<open>
  Claim C9. When the query of a discovery call succeeds, the call succeeds and returns,
  in the order of the answer, one field for every child of the single-select or the
  iteration variant. A single-select child gives its name, its id and a mapping from
  the display names of its options to their identifiers (of two options with one name
  the later one is kept); an iteration child gives its name, its id and the empty
  mapping. A child of any other variant gives no field.
\<close>

theorem GetProjectFields_variants:
  assumes "githubClient g = Some cl"
    and "onQuery srv cl (trace w) (Query (StrID (projectID g))) = Inr nodes"
  shows "fst (GetProjectFields srv g w) =
           Inr (map (the \<circ> fieldOfNode) (filter recognised nodes)) \<and>
         (\<forall>node. Typename node = ''ProjectV2SingleSelectField'' \<longrightarrow>
            recognised node \<and>
            ID (the (fieldOfNode node)) = SingleSelect_ID node \<and>
            Name (the (fieldOfNode node)) = SingleSelect_Name node \<and>
            distinct (map fst (Options (the (fieldOfNode node)))) \<and>
            fst ` set (Options (the (fieldOfNode node))) = snd ` set (SingleSelect_Options node) \<and>
            map_of (Options (the (fieldOfNode node))) =
              map_of (rev (byName (SingleSelect_Options node))) \<and>
            (distinct (map snd (SingleSelect_Options node)) \<longrightarrow>
               (\<forall>opt \<in> set (SingleSelect_Options node).
                  map_of (Options (the (fieldOfNode node))) (snd opt) = Some (fst opt)))) \<and>
         (\<forall>node. Typename node = ''ProjectV2IterationField'' \<longrightarrow>
            recognised node \<and>
            the (fieldOfNode node) =
              \<lparr>ID = Iteration_ID node, Name = Iteration_Name node, Options = []\<rparr>) \<and>
         (\<forall>node. \<not> recognised node \<longrightarrow> fieldOfNode node = None)"
proof -
  have 1: "fst (GetProjectFields srv g w) =
           Inr (map (the \<circ> fieldOfNode) (filter recognised nodes))"
    using GetProjectFields_ok [OF assms] by simp
  have 2: "recognised node \<and>
            ID (the (fieldOfNode node)) = SingleSelect_ID node \<and>
            Name (the (fieldOfNode node)) = SingleSelect_Name node \<and>
            distinct (map fst (Options (the (fieldOfNode node)))) \<and>
            fst ` set (Options (the (fieldOfNode node))) = snd ` set (SingleSelect_Options node) \<and>
            map_of (Options (the (fieldOfNode node))) =
              map_of (rev (byName (SingleSelect_Options node))) \<and>
            (distinct (map snd (SingleSelect_Options node)) \<longrightarrow>
               (\<forall>opt \<in> set (SingleSelect_Options node).
                  map_of (Options (the (fieldOfNode node))) (snd opt) = Some (fst opt)))"
    if "Typename node = ''ProjectV2SingleSelectField''" for node
    using that
    by (auto simp: recognised_def fieldOfNode_def fold_update_distinct fold_update_keys
        fold_update_map_of map_of_byName_distinct)
  have 3: "recognised node \<and> the (fieldOfNode node) =
              \<lparr>ID = Iteration_ID node, Name = Iteration_Name node, Options = []\<rparr>"
    if "Typename node = ''ProjectV2IterationField''" for node
    using that by (simp add: recognised_def fieldOfNode_def)
  have 4: "fieldOfNode node = None" if "\<not> recognised node" for node
    using that by (simp add: recognised_def fieldOfNode_def)
  from 1 2 3 4 show ?thesis by blast
qed

theorem GetProjectFields_variants_witness:
  "fst (GetProjectFields
          (serving [singleSelect ''F1'' ''Status'' [(StrID ''O1'', ''Drafting''), (StrID ''O2'', ''Done'')],
                    otherNode, iteration ''F2'' ''Sprint''] NilID)
          (NewProjectManager ''token'') emptyWorld) =
     Inr [\<lparr>ID = StrID ''F1'', Name = ''Status'',
           Options = [(''Drafting'', StrID ''O1''), (''Done'', StrID ''O2'')]\<rparr>,
          \<lparr>ID = StrID ''F2'', Name = ''Sprint'', Options = []\<rparr>]"
proof -
  let ?nodes = "[singleSelect ''F1'' ''Status'' [(StrID ''O1'', ''Drafting''), (StrID ''O2'', ''Done'')],
                 otherNode, iteration ''F2'' ''Sprint'']"
  have c: "githubClient (NewProjectManager ''token'') = Some \<lparr>AccessToken = ''token''\<rparr>"
    by (simp add: NewProjectManager_def)
  have q: "onQuery (serving ?nodes NilID) \<lparr>AccessToken = ''token''\<rparr> (trace emptyWorld)
             (Query (StrID (projectID (NewProjectManager ''token'')))) = Inr ?nodes"
    by (simp add: serving_def)
  have "fst (GetProjectFields (serving ?nodes NilID) (NewProjectManager ''token'') emptyWorld) =
          Inr (map (the \<circ> fieldOfNode) (filter recognised ?nodes))"
    using GetProjectFields_variants [OF c q] by blast
  then show ?thesis by (simp add: node_eval)
qed

section \<open>Properties of \<open>CreateDraftIssue\<close>\<close>

subsection \<open>The update loop and the three ways the operation ends\<close>

lemma trace_send: "trace (send r w) = trace w @ [r]" and stdout_send: "stdout (send r w) = stdout w"
  by (simp_all add: send_def)

lemma trace_Printf: "trace (Printf l w) = trace w" and stdout_Printf: "stdout (Printf l w) = stdout w @ [l]"
  by (simp_all add: Printf_def)

lemmas world_simps = trace_send stdout_send trace_Printf stdout_Printf

lemma updateLoop_trace:
  "trace (updateLoop srv cl pid itemID us w) =
     trace w @ map (updateRequest pid itemID)
                 (filter (\<lambda>u. fieldID u \<noteq> StrID [] \<and> optionID u \<noteq> StrID []) us)"
  by (induction us arbitrary: w) (auto simp: world_simps split: option.splits)

lemma warningsOf_Nil: "warningsOf srv cl h pid itemID [] = []"
  by (simp add: warningsOf_def)

lemma answerAt_Suc:
  "answerAt srv cl h (r # reqs) (Suc k) = answerAt srv cl (h @ [r]) reqs k"
  by (simp add: answerAt_def)

lemma warningsOf_Cons:
  "warningsOf srv cl h pid itemID (u # us) =
     warningLine u (onUpdate srv cl h (updateRequest pid itemID u)) @
     warningsOf srv cl (h @ [updateRequest pid itemID u]) pid itemID us"
proof -
  have "answerAt srv cl h (map (updateRequest pid itemID) (u # us)) 0 =
          onUpdate srv cl h (updateRequest pid itemID u)"
    by (simp add: answerAt_def)
  then show ?thesis
    unfolding warningsOf_def
    by (simp add: map_upt_Suc answerAt_Suc del: upt_Suc)
qed

lemma updateLoop_stdout:
  "stdout (updateLoop srv cl pid itemID us w) =
     stdout w @ warningsOf srv cl (trace w) pid itemID
                 (filter (\<lambda>u. fieldID u \<noteq> StrID [] \<and> optionID u \<noteq> StrID []) us)"
proof (induction us arbitrary: w)
  case Nil
  then show ?case by (simp add: warningsOf_Nil)
next
  case (Cons u us)
  then show ?case
    by (auto simp: world_simps warningsOf_Nil warningsOf_Cons warningLine_def split: option.splits)
qed

lemma CreateDraftIssue_nil:
  "githubClient g = None \<Longrightarrow>
   CreateDraftIssue srv ord g title body board w = (Some (New ''github GraphQL client is nil''), w)"
  by (simp add: CreateDraftIssue_def)

lemma GetProjectFields_nil:
  "githubClient g = None \<Longrightarrow>
   GetProjectFields srv g w = (Inl (New ''github GraphQL client is nil''), w)"
  by (simp add: GetProjectFields_def)

lemma GetProjectFields_err:
  assumes "githubClient g = Some cl"
    and "onQuery srv cl (trace w) (Query (StrID (projectID g))) = Inl err"
  shows "GetProjectFields srv g w =
    (Inl (Errorf ''failed to query project fields: '' err), send (Query (StrID (projectID g))) w)"
  using assms by (simp add: GetProjectFields_def)

lemma GetProjectFields_trace:
  "githubClient g = Some cl \<Longrightarrow>
   trace (snd (GetProjectFields srv g w)) = trace w @ [Query (StrID (projectID g))]"
  by (auto simp: GetProjectFields_def world_simps split: sum.splits)

lemma CreateDraftIssue_query_err:
  assumes "githubClient g = Some cl"
    and "onQuery srv cl (trace w) (Query (StrID (projectID g))) = Inl err"
  shows "CreateDraftIssue srv ord g title body board w =
    (Some (Errorf ''failed to get project fields: ''
             (Errorf ''failed to query project fields: '' err)),
     send (Query (StrID (projectID g))) w)"
  using assms by (simp add: CreateDraftIssue_def GetProjectFields_err)

lemma CreateDraftIssue_draft_err:
  assumes "githubClient g = Some cl"
    and "onQuery srv cl (trace w) (Query (StrID (projectID g))) = Inr nodes"
    and "onDraft srv cl (trace w @ [Query (StrID (projectID g))])
           (AddProjectV2DraftIssue (StrID (projectID g)) title body) = Inl err"
  shows "CreateDraftIssue srv ord g title body board w =
    (Some (Errorf ''failed to create draft issue: '' err),
     send (AddProjectV2DraftIssue (StrID (projectID g)) title body)
       (send (Query (StrID (projectID g))) w))"
  using assms by (simp add: CreateDraftIssue_def GetProjectFields_ok world_simps Let_def)

lemma CreateDraftIssue_ok:
  assumes "githubClient g = Some cl"
    and "onQuery srv cl (trace w) (Query (StrID (projectID g))) = Inr nodes"
    and "onDraft srv cl (trace w @ [Query (StrID (projectID g))])
           (AddProjectV2DraftIssue (StrID (projectID g)) title body) = Inr itemID"
  shows "CreateDraftIssue srv ord g title body board w =
    (None,
     updateLoop srv cl (StrID (projectID g)) itemID
       (fieldUpdates (resolveLoop ord board 0 (collectFields nodes []) noTargets))
       (send (AddProjectV2DraftIssue (StrID (projectID g)) title body)
          (send (Query (StrID (projectID g))) w)))"
  using assms
  by (simp add: CreateDraftIssue_def GetProjectFields_ok world_simps Let_def collectFields_acc)

subsection \<open>The example project\<close>

lemma demo_fields: "collectFields demoNodes [] =
   [\<lparr>ID = StrID ''F_release'', Name = ''K8s Release'',
      Options = [(''v1.30'', StrID ''id1''), (''v1.32'', StrID ''id2''), (''stable'', StrID ''id3'')]\<rparr>,
    \<lparr>ID = StrID ''F_view'', Name = ''View'', Options = [(''Issue-Tracking'', StrID ''V1'')]\<rparr>,
    \<lparr>ID = StrID ''F_board'', Name = ''Testgrid Board'',
      Options = [(''master-blocking'', StrID ''B1''), (''master-informing'', StrID ''B2'')]\<rparr>,
    \<lparr>ID = StrID ''F_status'', Name = ''Status'', Options = [(''Drafting'', StrID ''S1'')]\<rparr>]"
  by (simp add: demoNodes_def node_eval)

lemmas resolve_eval = resolveField_def resolveRelease_def Let_def ToLower_def toLowerChar_def
  visitStored_def visitReversed_def extract_eval version_eval noTargets_def viewTest_def
  boardTest_def statusTest_def

lemma demo_resolved: "resolveLoop visitStored ''sig-release-master-blocking'' 0 (collectFields demoNodes []) noTargets =
    \<lparr>k8sReleaseFieldID = StrID ''F_release'', viewFieldID = StrID ''F_view'',
     statusFieldID = StrID ''F_status'', boardFieldID = StrID ''F_board'',
     k8sReleaseValueID = StrID ''id2'', viewValueID = StrID ''V1'',
     statusValueID = StrID ''S1'', boardValueID = StrID ''B1''\<rparr>"
  unfolding demo_fields by (simp add: resolve_eval)

subsection \<open>Claims about the update protocol\<close>

text \<open>
  Claim C1. In every run of \<open>CreateDraftIssue\<close> in which the draft item is created, the
  operation returns no error, whatever the service answers to the field updates. The
  requests sent after the creation are exactly the updates of the targets that pass the
  test of the loop, in the fixed order Release, View, Status, Board; every target whose
  field identifier and value identifier are both non-empty strings is among them (the
  test, \<open>!= ""\<close> on an interface value, also lets an identifier pass that was never
  set). Every update is sent, also after an earlier one has failed, and each failed
  update leaves one warning line that names the field and the error.
\<close>

theorem CreateDraftIssue_best_effort:
  assumes "githubClient g = Some cl"
    and "onQuery srv cl (trace w) (Query (StrID (projectID g))) = Inr nodes"
    and "onDraft srv cl (trace w @ [Query (StrID (projectID g))])
           (AddProjectV2DraftIssue (StrID (projectID g)) title body) = Inr itemID"
    and "t = resolveLoop ord board 0 (collectFields nodes []) noTargets"
    and "h = trace w @ [Query (StrID (projectID g)),
                        AddProjectV2DraftIssue (StrID (projectID g)) title body]"
  shows "fst (CreateDraftIssue srv ord g title body board w) = None \<and>
    trace (snd (CreateDraftIssue srv ord g title body board w)) =
      h @ map (updateRequest (StrID (projectID g)) itemID) (attempted t) \<and>
    stdout (snd (CreateDraftIssue srv ord g title body board w)) =
      stdout w @ warningsOf srv cl h (StrID (projectID g)) itemID (attempted t) \<and>
    fieldUpdates t =
      map (\<lambda>r. \<lparr>fieldID = fieldIDOf (fst r) t, optionID = valueIDOf (fst r) t, fieldName = snd r\<rparr>)
        [(Release, ''K8s Release''), (View, ''View''), (Status, ''Status''),
         (Board, ''Testgrid Board'')] \<and>
    (\<forall>u \<in> set (fieldUpdates t).
       (\<exists>f v. fieldID u = StrID f \<and> f \<noteq> [] \<and> optionID u = StrID v \<and> v \<noteq> []) \<longrightarrow>
       updateRequest (StrID (projectID g)) itemID u
         \<in> set (trace (snd (CreateDraftIssue srv ord g title body board w))))"
proof -
  note ok = CreateDraftIssue_ok [OF assms(1,2,3), of ord board]
  have "fst (CreateDraftIssue srv ord g title body board w) = None"
    by (simp add: ok)
  moreover have "trace (snd (CreateDraftIssue srv ord g title body board w)) =
      h @ map (updateRequest (StrID (projectID g)) itemID) (attempted t)"
    by (simp add: ok updateLoop_trace world_simps attempted_def assms(4,5))
  moreover have "stdout (snd (CreateDraftIssue srv ord g title body board w)) =
      stdout w @ warningsOf srv cl h (StrID (projectID g)) itemID (attempted t)"
    by (simp add: ok updateLoop_stdout world_simps attempted_def assms(4,5))
  moreover have "fieldUpdates t =
      map (\<lambda>r. \<lparr>fieldID = fieldIDOf (fst r) t, optionID = valueIDOf (fst r) t, fieldName = snd r\<rparr>)
        [(Release, ''K8s Release''), (View, ''View''), (Status, ''Status''),
         (Board, ''Testgrid Board'')]"
    by (simp add: fieldUpdates_def)
  moreover have "\<forall>u \<in> set (fieldUpdates t).
       (\<exists>f v. fieldID u = StrID f \<and> f \<noteq> [] \<and> optionID u = StrID v \<and> v \<noteq> []) \<longrightarrow>
       updateRequest (StrID (projectID g)) itemID u
         \<in> set (trace (snd (CreateDraftIssue srv ord g title body board w)))"
    by (auto simp: ok updateLoop_trace assms(4))
  ultimately show ?thesis by blast
qed

theorem CreateDraftIssue_best_effort_witness:
  "CreateDraftIssue (serving demoNodes (StrID ''F_status'')) visitStored
     (NewProjectManager ''token'') ''flake: TestFoo'' ''body text''
     ''sig-release-master-blocking'' emptyWorld =
   (None,
    \<lparr>trace =
       [Query (StrID PROJECT_ID),
        AddProjectV2DraftIssue (StrID PROJECT_ID) ''flake: TestFoo'' ''body text'',
        UpdateProjectV2ItemFieldValue (StrID PROJECT_ID) (StrID ''ITEM'') (StrID ''F_release'') ''id2'',
        UpdateProjectV2ItemFieldValue (StrID PROJECT_ID) (StrID ''ITEM'') (StrID ''F_view'') ''V1'',
        UpdateProjectV2ItemFieldValue (StrID PROJECT_ID) (StrID ''ITEM'') (StrID ''F_status'') ''S1'',
        UpdateProjectV2ItemFieldValue (StrID PROJECT_ID) (StrID ''ITEM'') (StrID ''F_board'') ''B1''],
     stdout = [''Warning: failed to update Status field: timeout'' @ [CHR 0x0A]]\<rparr>)"
proof -
  let ?srv = "serving demoNodes (StrID ''F_status'')"
  let ?g = "NewProjectManager ''token''"
  let ?cl = "\<lparr>AccessToken = ''token''\<rparr>"
  let ?t = "resolveLoop visitStored ''sig-release-master-blocking'' 0
              (collectFields demoNodes []) noTargets"
  let ?h = "[Query (StrID PROJECT_ID),
             AddProjectV2DraftIssue (StrID PROJECT_ID) ''flake: TestFoo'' ''body text'']"
  let ?run = "CreateDraftIssue ?srv visitStored ?g ''flake: TestFoo'' ''body text''
                ''sig-release-master-blocking'' emptyWorld"
  have c: "githubClient ?g = Some ?cl" by (simp add: NewProjectManager_def)
  have p: "projectID ?g = PROJECT_ID" by (simp add: NewProjectManager_def)
  have q: "onQuery ?srv ?cl (trace emptyWorld) (Query (StrID (projectID ?g))) = Inr demoNodes"
    by (simp add: serving_def)
  have d: "onDraft ?srv ?cl (trace emptyWorld @ [Query (StrID (projectID ?g))])
             (AddProjectV2DraftIssue (StrID (projectID ?g)) ''flake: TestFoo'' ''body text'') =
           Inr (StrID ''ITEM'')"
    by (simp add: serving_def)
  have hh: "?h = trace emptyWorld @ [Query (StrID (projectID ?g)),
              AddProjectV2DraftIssue (StrID (projectID ?g)) ''flake: TestFoo'' ''body text'']"
    by (simp add: p emptyWorld_def)
  note claim = CreateDraftIssue_best_effort [OF c q d refl hh]
  have a: "attempted ?t =
     [\<lparr>fieldID = StrID ''F_release'', optionID = StrID ''id2'', fieldName = ''K8s Release''\<rparr>,
      \<lparr>fieldID = StrID ''F_view'', optionID = StrID ''V1'', fieldName = ''View''\<rparr>,
      \<lparr>fieldID = StrID ''F_status'', optionID = StrID ''S1'', fieldName = ''Status''\<rparr>,
      \<lparr>fieldID = StrID ''F_board'', optionID = StrID ''B1'', fieldName = ''Testgrid Board''\<rparr>]"
    unfolding demo_resolved by (simp add: attempted_def fieldUpdates_def)
  have 1: "fst ?run = None" using claim by blast
  have 2: "trace (snd ?run) = ?h @ map (updateRequest (StrID (projectID ?g)) (StrID ''ITEM'')) (attempted ?t)"
    using claim by blast
  have 3: "stdout (snd ?run) = stdout emptyWorld @
      warningsOf ?srv ?cl ?h (StrID (projectID ?g)) (StrID ''ITEM'') (attempted ?t)"
    using claim by blast
  have tr: "trace (snd ?run) =
       [Query (StrID PROJECT_ID),
        AddProjectV2DraftIssue (StrID PROJECT_ID) ''flake: TestFoo'' ''body text'',
        UpdateProjectV2ItemFieldValue (StrID PROJECT_ID) (StrID ''ITEM'') (StrID ''F_release'') ''id2'',
        UpdateProjectV2ItemFieldValue (StrID PROJECT_ID) (StrID ''ITEM'') (StrID ''F_view'') ''V1'',
        UpdateProjectV2ItemFieldValue (StrID PROJECT_ID) (StrID ''ITEM'') (StrID ''F_status'') ''S1'',
        UpdateProjectV2ItemFieldValue (StrID PROJECT_ID) (StrID ''ITEM'') (StrID ''F_board'') ''B1'']"
    unfolding 2 a by (simp add: p updateRequest_def)
  have out: "stdout (snd ?run) = [''Warning: failed to update Status field: timeout'' @ [CHR 0x0A]]"
    unfolding 3 a
    by (simp add: warningsOf_def warningLine_def answerAt_def serving_def updateRequest_def
        warning_def emptyWorld_def upt_rec)
  obtain e w' where run: "?run = (e, w')" by (cases ?run)
  with 1 tr out show ?thesis by (cases w') simp
qed

text \<open>
  Claim C2. When field discovery fails, \<open>CreateDraftIssue\<close> returns that error, wrapped
  with the step that failed, and the query is the only request sent: no mutation is
  issued. When the creation of the draft item fails, the operation returns that error,
  wrapped with the step that failed (\<open>Unwrap\<close> gives the underlying error back), and
  the requests sent are the query and the creation: no field update is attempted.
  Nothing is printed in either case.
\<close>

theorem CreateDraftIssue_fatal_errors:
  assumes "githubClient g = Some cl"
  shows
    "(onQuery srv cl (trace w) (Query (StrID (projectID g))) = Inl err \<longrightarrow>
        fst (CreateDraftIssue srv ord g title body board w) =
          Some (Errorf ''failed to get project fields: ''
                  (Errorf ''failed to query project fields: '' err)) \<and>
        trace (snd (CreateDraftIssue srv ord g title body board w)) =
          trace w @ [Query (StrID (projectID g))] \<and>
        filter isMutation (trace (snd (CreateDraftIssue srv ord g title body board w))) =
          filter isMutation (trace w) \<and>
        stdout (snd (CreateDraftIssue srv ord g title body board w)) = stdout w) \<and>
     (onQuery srv cl (trace w) (Query (StrID (projectID g))) = Inr nodes \<longrightarrow>
      onDraft srv cl (trace w @ [Query (StrID (projectID g))])
        (AddProjectV2DraftIssue (StrID (projectID g)) title body) = Inl err \<longrightarrow>
        fst (CreateDraftIssue srv ord g title body board w) =
          Some (Errorf ''failed to create draft issue: '' err) \<and>
        Unwrap (Errorf ''failed to create draft issue: '' err) = Some err \<and>
        trace (snd (CreateDraftIssue srv ord g title body board w)) =
          trace w @ [Query (StrID (projectID g)),
                     AddProjectV2DraftIssue (StrID (projectID g)) title body] \<and>
        filter isUpdate (trace (snd (CreateDraftIssue srv ord g title body board w))) =
          filter isUpdate (trace w) \<and>
        stdout (snd (CreateDraftIssue srv ord g title body board w)) = stdout w)"
proof (intro conjI impI)
  assume q: "onQuery srv cl (trace w) (Query (StrID (projectID g))) = Inl err"
  note r = CreateDraftIssue_query_err [OF assms q, of ord title body board]
  show "fst (CreateDraftIssue srv ord g title body board w) =
          Some (Errorf ''failed to get project fields: ''
                  (Errorf ''failed to query project fields: '' err))"
    by (simp add: r)
  show "trace (snd (CreateDraftIssue srv ord g title body board w)) =
          trace w @ [Query (StrID (projectID g))]"
    by (simp add: r world_simps)
  show "filter isMutation (trace (snd (CreateDraftIssue srv ord g title body board w))) =
          filter isMutation (trace w)"
    by (simp add: r world_simps)
  show "stdout (snd (CreateDraftIssue srv ord g title body board w)) = stdout w"
    by (simp add: r world_simps)
next
  assume q: "onQuery srv cl (trace w) (Query (StrID (projectID g))) = Inr nodes"
    and d: "onDraft srv cl (trace w @ [Query (StrID (projectID g))])
        (AddProjectV2DraftIssue (StrID (projectID g)) title body) = Inl err"
  note r = CreateDraftIssue_draft_err [OF assms q d, of ord board]
  show "fst (CreateDraftIssue srv ord g title body board w) =
          Some (Errorf ''failed to create draft issue: '' err)"
    by (simp add: r)
  show "Unwrap (Errorf ''failed to create draft issue: '' err) = Some err"
    by simp
  show "trace (snd (CreateDraftIssue srv ord g title body board w)) =
          trace w @ [Query (StrID (projectID g)),
                     AddProjectV2DraftIssue (StrID (projectID g)) title body]"
    by (simp add: r world_simps)
  show "filter isUpdate (trace (snd (CreateDraftIssue srv ord g title body board w))) =
          filter isUpdate (trace w)"
    by (simp add: r world_simps)
  show "stdout (snd (CreateDraftIssue srv ord g title body board w)) = stdout w"
    by (simp add: r world_simps)
qed

theorem CreateDraftIssue_fatal_errors_witness:
  "CreateDraftIssue rejecting visitStored (NewProjectManager ''token'') ''title'' ''body''
     ''sig-release-master-blocking'' emptyWorld =
     (Some (Errorf ''failed to get project fields: ''
              (Errorf ''failed to query project fields: '' (New ''401 Unauthorized''))),
      \<lparr>trace = [Query (StrID PROJECT_ID)], stdout = []\<rparr>) \<and>
   CreateDraftIssue (servingNoDraft demoNodes) visitStored (NewProjectManager ''token'')
     ''title'' ''body'' ''sig-release-master-blocking'' emptyWorld =
     (Some (Errorf ''failed to create draft issue: '' (New ''timeout'')),
      \<lparr>trace = [Query (StrID PROJECT_ID),
                 AddProjectV2DraftIssue (StrID PROJECT_ID) ''title'' ''body''],
       stdout = []\<rparr>)"
proof -
  let ?g = "NewProjectManager ''token''"
  let ?cl = "\<lparr>AccessToken = ''token''\<rparr>"
  let ?run1 = "CreateDraftIssue rejecting visitStored ?g ''title'' ''body''
     ''sig-release-master-blocking'' emptyWorld"
  let ?run2 = "CreateDraftIssue (servingNoDraft demoNodes) visitStored ?g
     ''title'' ''body'' ''sig-release-master-blocking'' emptyWorld"
  have c: "githubClient ?g = Some ?cl" by (simp add: NewProjectManager_def)
  have p: "projectID ?g = PROJECT_ID" by (simp add: NewProjectManager_def)
  have q1: "onQuery rejecting ?cl (trace emptyWorld) (Query (StrID (projectID ?g))) =
              Inl (New ''401 Unauthorized'')"
    by (simp add: rejecting_def)
  have q2: "onQuery (servingNoDraft demoNodes) ?cl (trace emptyWorld)
              (Query (StrID (projectID ?g))) = Inr demoNodes"
    by (simp add: servingNoDraft_def)
  have d2: "onDraft (servingNoDraft demoNodes) ?cl (trace emptyWorld @ [Query (StrID (projectID ?g))])
              (AddProjectV2DraftIssue (StrID (projectID ?g)) ''title'' ''body'') =
            Inl (New ''timeout'')"
    by (simp add: servingNoDraft_def)
  from CreateDraftIssue_fatal_errors [OF c, of rejecting emptyWorld "New ''401 Unauthorized''"
      visitStored "''title''" "''body''" "''sig-release-master-blocking''"] q1
  have a: "fst ?run1 = Some (Errorf ''failed to get project fields: ''
              (Errorf ''failed to query project fields: '' (New ''401 Unauthorized'')))"
    "trace (snd ?run1) = trace emptyWorld @ [Query (StrID (projectID ?g))]"
    "stdout (snd ?run1) = stdout emptyWorld"
    by blast+
  from CreateDraftIssue_fatal_errors [OF c, of "servingNoDraft demoNodes" emptyWorld "New ''timeout''"
      visitStored "''title''" "''body''" "''sig-release-master-blocking''" demoNodes] q2 d2
  have b: "fst ?run2 = Some (Errorf ''failed to create draft issue: '' (New ''timeout''))"
    "trace (snd ?run2) = trace emptyWorld @ [Query (StrID (projectID ?g)),
        AddProjectV2DraftIssue (StrID (projectID ?g)) ''title'' ''body'']"
    "stdout (snd ?run2) = stdout emptyWorld"
    by blast+
  obtain e1 w1 where r1: "?run1 = (e1, w1)" by (cases ?run1)
  obtain e2 w2 where r2: "?run2 = (e2, w2)" by (cases ?run2)
  have "?run1 = (Some (Errorf ''failed to get project fields: ''
              (Errorf ''failed to query project fields: '' (New ''401 Unauthorized''))),
      \<lparr>trace = [Query (StrID PROJECT_ID)], stdout = []\<rparr>)"
    using a r1 by (cases w1) (simp add: p emptyWorld_def)
  moreover have "?run2 = (Some (Errorf ''failed to create draft issue: '' (New ''timeout'')),
      \<lparr>trace = [Query (StrID PROJECT_ID),
                 AddProjectV2DraftIssue (StrID PROJECT_ID) ''title'' ''body''],
       stdout = []\<rparr>)"
    using b r2 by (cases w2) (simp add: p emptyWorld_def)
  ultimately show ?thesis by blast
qed

subsection \<open>Claims about a missing credential\<close>

text \<open>
  Claim C5, as amended. \<open>NewProjectManager\<close> succeeds for every token, the empty one
  included, and the manager it returns always has a client. An operation fails with the
  error \<open>github GraphQL client is nil\<close>, before any remote call, when the manager has
  no client. On a manager that has a client, so on every manager built by
  \<open>NewProjectManager\<close>, with or without a credential, both operations send the
  discovery query first, and what they return is decided by the answers of the remote
  service alone: the error of a rejected query or of a rejected creation, wrapped with
  the step that failed, and success otherwise. A missing credential shows only in those
  answers.
\<close>

theorem client_nil_check:
  "githubClient (NewProjectManager token) = Some \<lparr>AccessToken = token\<rparr> \<and>
   projectID (NewProjectManager token) = PROJECT_ID \<and>
   (githubClient g = None \<longrightarrow>
      GetProjectFields srv g w = (Inl (New ''github GraphQL client is nil''), w) \<and>
      CreateDraftIssue srv ord g title body board w =
        (Some (New ''github GraphQL client is nil''), w)) \<and>
   (githubClient g = Some cl \<longrightarrow>
      (onQuery srv cl (trace w) (Query (StrID (projectID g))) = Inl err \<longrightarrow>
         GetProjectFields srv g w =
           (Inl (Errorf ''failed to query project fields: '' err),
            send (Query (StrID (projectID g))) w) \<and>
         CreateDraftIssue srv ord g title body board w =
           (Some (Errorf ''failed to get project fields: ''
                    (Errorf ''failed to query project fields: '' err)),
            send (Query (StrID (projectID g))) w)) \<and>
      (onQuery srv cl (trace w) (Query (StrID (projectID g))) = Inr nodes \<longrightarrow>
         GetProjectFields srv g w =
           (Inr (collectFields nodes []), send (Query (StrID (projectID g))) w) \<and>
         (onDraft srv cl (trace w @ [Query (StrID (projectID g))])
            (AddProjectV2DraftIssue (StrID (projectID g)) title body) = Inl err \<longrightarrow>
            CreateDraftIssue srv ord g title body board w =
              (Some (Errorf ''failed to create draft issue: '' err),
               send (AddProjectV2DraftIssue (StrID (projectID g)) title body)
                 (send (Query (StrID (projectID g))) w))) \<and>
         (onDraft srv cl (trace w @ [Query (StrID (projectID g))])
            (AddProjectV2DraftIssue (StrID (projectID g)) title body) = Inr itemID \<longrightarrow>
            CreateDraftIssue srv ord g title body board w =
              (None,
               updateLoop srv cl (StrID (projectID g)) itemID
                 (fieldUpdates (resolveLoop ord board 0 (collectFields nodes []) noTargets))
                 (send (AddProjectV2DraftIssue (StrID (projectID g)) title body)
                    (send (Query (StrID (projectID g))) w)))))) \<and>
   trace (snd (GetProjectFields srv (NewProjectManager token) w)) =
     trace w @ [Query (StrID PROJECT_ID)] \<and>
   prefix (trace w @ [Query (StrID PROJECT_ID)])
     (trace (snd (CreateDraftIssue srv ord (NewProjectManager token) title body board w)))"
proof -
  have c: "githubClient (NewProjectManager token) = Some \<lparr>AccessToken = token\<rparr>"
    by (simp add: NewProjectManager_def)
  have p: "projectID (NewProjectManager token) = PROJECT_ID"
    by (simp add: NewProjectManager_def)
  have n: "githubClient g = None \<longrightarrow>
      GetProjectFields srv g w = (Inl (New ''github GraphQL client is nil''), w) \<and>
      CreateDraftIssue srv ord g title body board w =
        (Some (New ''github GraphQL client is nil''), w)"
    by (simp add: GetProjectFields_nil CreateDraftIssue_nil)
  have qe: "GetProjectFields srv g w =
           (Inl (Errorf ''failed to query project fields: '' err),
            send (Query (StrID (projectID g))) w) \<and>
         CreateDraftIssue srv ord g title body board w =
           (Some (Errorf ''failed to get project fields: ''
                    (Errorf ''failed to query project fields: '' err)),
            send (Query (StrID (projectID g))) w)"
    if "githubClient g = Some cl"
      "onQuery srv cl (trace w) (Query (StrID (projectID g))) = Inl err"
    using that by (simp add: GetProjectFields_err CreateDraftIssue_query_err)
  have qo: "GetProjectFields srv g w =
           (Inr (collectFields nodes []), send (Query (StrID (projectID g))) w)"
    if "githubClient g = Some cl"
      "onQuery srv cl (trace w) (Query (StrID (projectID g))) = Inr nodes"
    using that by (simp add: GetProjectFields_def)
  have de: "CreateDraftIssue srv ord g title body board w =
              (Some (Errorf ''failed to create draft issue: '' err),
               send (AddProjectV2DraftIssue (StrID (projectID g)) title body)
                 (send (Query (StrID (projectID g))) w))"
    if "githubClient g = Some cl"
      "onQuery srv cl (trace w) (Query (StrID (projectID g))) = Inr nodes"
      "onDraft srv cl (trace w @ [Query (StrID (projectID g))])
            (AddProjectV2DraftIssue (StrID (projectID g)) title body) = Inl err"
    using that by (rule CreateDraftIssue_draft_err)
  have dk: "CreateDraftIssue srv ord g title body board w =
              (None,
               updateLoop srv cl (StrID (projectID g)) itemID
                 (fieldUpdates (resolveLoop ord board 0 (collectFields nodes []) noTargets))
                 (send (AddProjectV2DraftIssue (StrID (projectID g)) title body)
                    (send (Query (StrID (projectID g))) w)))"
    if "githubClient g = Some cl"
      "onQuery srv cl (trace w) (Query (StrID (projectID g))) = Inr nodes"
      "onDraft srv cl (trace w @ [Query (StrID (projectID g))])
            (AddProjectV2DraftIssue (StrID (projectID g)) title body) = Inr itemID"
    using that by (rule CreateDraftIssue_ok)
  have t: "trace (snd (GetProjectFields srv (NewProjectManager token) w)) =
     trace w @ [Query (StrID PROJECT_ID)]"
    using GetProjectFields_trace [OF c, of srv w] by (simp add: p)
  have pre: "prefix (trace w @ [Query (StrID PROJECT_ID)])
     (trace (snd (CreateDraftIssue srv ord (NewProjectManager token) title body board w)))"
    using c t
    by (auto simp: CreateDraftIssue_def Let_def world_simps updateLoop_trace p
        split: prod.splits sum.splits)
  from c p n qe qo de dk t pre show ?thesis by blast
qed

theorem client_nil_check_witness:
  "GetProjectFields rejecting
     \<lparr>organization = ORGANIZATION, projectID = PROJECT_ID, fields' = [], githubClient = None\<rparr>
     emptyWorld = (Inl (New ''github GraphQL client is nil''), emptyWorld) \<and>
   CreateDraftIssue rejecting visitStored
     \<lparr>organization = ORGANIZATION, projectID = PROJECT_ID, fields' = [], githubClient = None\<rparr>
     ''title'' ''body'' ''board'' emptyWorld =
     (Some (New ''github GraphQL client is nil''), emptyWorld) \<and>
   GetProjectFields rejecting (NewProjectManager []) emptyWorld =
     (Inl (Errorf ''failed to query project fields: '' (New ''401 Unauthorized'')),
      send (Query (StrID PROJECT_ID)) emptyWorld) \<and>
   CreateDraftIssue rejecting visitStored (NewProjectManager []) ''title'' ''body'' ''board''
     emptyWorld =
     (Some (Errorf ''failed to get project fields: ''
              (Errorf ''failed to query project fields: '' (New ''401 Unauthorized''))),
      send (Query (StrID PROJECT_ID)) emptyWorld) \<and>
   GetProjectFields (servingNoDraft demoNodes) (NewProjectManager []) emptyWorld =
     (Inr (collectFields demoNodes []), send (Query (StrID PROJECT_ID)) emptyWorld) \<and>
   CreateDraftIssue (servingNoDraft demoNodes) visitStored (NewProjectManager [])
     ''title'' ''body'' ''board'' emptyWorld =
     (Some (Errorf ''failed to create draft issue: '' (New ''timeout'')),
      send (AddProjectV2DraftIssue (StrID PROJECT_ID) ''title'' ''body'')
        (send (Query (StrID PROJECT_ID)) emptyWorld)) \<and>
   fst (CreateDraftIssue (serving demoNodes NilID) visitStored (NewProjectManager [])
          ''title'' ''body'' ''board'' emptyWorld) = None"
proof -
  let ?nil = "\<lparr>organization = ORGANIZATION, projectID = PROJECT_ID, fields' = [],
                githubClient = None\<rparr>"
  let ?g = "NewProjectManager []"
  let ?cl = "\<lparr>AccessToken = []\<rparr>"
  have c: "githubClient ?g = Some ?cl" and p: "projectID ?g = PROJECT_ID"
    by (simp_all add: NewProjectManager_def)
  have nil: "githubClient ?nil = None" by simp
  have q1: "onQuery rejecting ?cl (trace emptyWorld) (Query (StrID (projectID ?g))) =
              Inl (New ''401 Unauthorized'')"
    by (simp add: rejecting_def)
  have q2: "onQuery (servingNoDraft demoNodes) ?cl (trace emptyWorld)
              (Query (StrID (projectID ?g))) = Inr demoNodes"
    by (simp add: servingNoDraft_def)
  have d2: "onDraft (servingNoDraft demoNodes) ?cl
              (trace emptyWorld @ [Query (StrID (projectID ?g))])
              (AddProjectV2DraftIssue (StrID (projectID ?g)) ''title'' ''body'') =
            Inl (New ''timeout'')"
    by (simp add: servingNoDraft_def)
  have q3: "onQuery (serving demoNodes NilID) ?cl (trace emptyWorld)
              (Query (StrID (projectID ?g))) = Inr demoNodes"
    by (simp add: serving_def)
  have d3: "onDraft (serving demoNodes NilID) ?cl
              (trace emptyWorld @ [Query (StrID (projectID ?g))])
              (AddProjectV2DraftIssue (StrID (projectID ?g)) ''title'' ''body'') =
            Inr (StrID ''ITEM'')"
    by (simp add: serving_def)
  from client_nil_check [where g = ?nil and srv = rejecting and w = emptyWorld
      and ord = visitStored and title = "''title''" and body = "''body''"
      and board = "''board''"] nil
  have a: "GetProjectFields rejecting ?nil emptyWorld =
             (Inl (New ''github GraphQL client is nil''), emptyWorld)"
    "CreateDraftIssue rejecting visitStored ?nil ''title'' ''body'' ''board'' emptyWorld =
       (Some (New ''github GraphQL client is nil''), emptyWorld)"
    by blast+
  from client_nil_check [where g = ?g and cl = ?cl and srv = rejecting and w = emptyWorld
      and ord = visitStored and title = "''title''" and body = "''body''"
      and board = "''board''" and err = "New ''401 Unauthorized''"] c q1
  have b: "GetProjectFields rejecting ?g emptyWorld =
     (Inl (Errorf ''failed to query project fields: '' (New ''401 Unauthorized'')),
      send (Query (StrID (projectID ?g))) emptyWorld)"
    "CreateDraftIssue rejecting visitStored ?g ''title'' ''body'' ''board'' emptyWorld =
     (Some (Errorf ''failed to get project fields: ''
              (Errorf ''failed to query project fields: '' (New ''401 Unauthorized''))),
      send (Query (StrID (projectID ?g))) emptyWorld)"
    by blast+
  from client_nil_check [where g = ?g and cl = ?cl and srv = "servingNoDraft demoNodes"
      and w = emptyWorld and ord = visitStored and title = "''title''" and body = "''body''"
      and board = "''board''" and err = "New ''timeout''" and nodes = demoNodes] c q2 d2
  have d: "GetProjectFields (servingNoDraft demoNodes) ?g emptyWorld =
     (Inr (collectFields demoNodes []), send (Query (StrID (projectID ?g))) emptyWorld)"
    "CreateDraftIssue (servingNoDraft demoNodes) visitStored ?g ''title'' ''body'' ''board''
       emptyWorld =
     (Some (Errorf ''failed to create draft issue: '' (New ''timeout'')),
      send (AddProjectV2DraftIssue (StrID (projectID ?g)) ''title'' ''body'')
        (send (Query (StrID (projectID ?g))) emptyWorld))"
    by blast+
  from client_nil_check [where g = ?g and cl = ?cl and srv = "serving demoNodes NilID"
      and w = emptyWorld and ord = visitStored and title = "''title''" and body = "''body''"
      and board = "''board''" and nodes = demoNodes and itemID = "StrID ''ITEM''"] c q3 d3
  have e: "fst (CreateDraftIssue (serving demoNodes NilID) visitStored ?g ''title'' ''body''
                  ''board'' emptyWorld) = None"
    by simp
  from a b d e show ?thesis by (simp only: p)
qed

text \<open>
  Claim C5 as stated asks that, without a credential, every operation fails with a
  not-configured error before any remote call. With the empty token the manager has a
  client, the query is sent, and the error returned is the one of the remote call.
\<close>

theorem empty_token_counterexample:
  "githubClient (NewProjectManager []) \<noteq> None \<and>
   GetProjectFields rejecting (NewProjectManager []) emptyWorld =
     (Inl (Errorf ''failed to query project fields: '' (New ''401 Unauthorized'')),
      \<lparr>trace = [Query (StrID PROJECT_ID)], stdout = []\<rparr>) \<and>
   CreateDraftIssue rejecting visitStored (NewProjectManager []) ''title'' ''body'' ''board''
     emptyWorld =
     (Some (Errorf ''failed to get project fields: ''
              (Errorf ''failed to query project fields: '' (New ''401 Unauthorized''))),
      \<lparr>trace = [Query (StrID PROJECT_ID)], stdout = []\<rparr>)"
  by (simp add: NewProjectManager_def GetProjectFields_def CreateDraftIssue_def rejecting_def
      emptyWorld_def send_def)

section \<open>Properties of field resolution\<close>

subsection \<open>The loops over the options and the body of the field loop\<close>

lemma firstMatch_find:
  "firstMatch test kvs cur =
     (case List.find (\<lambda>kv. test (fst kv)) kvs of Some kv \<Rightarrow> snd kv | None \<Rightarrow> cur)"
  by (induction kvs) auto

lemma firstMatch_none: "\<forall>kv\<in>set kvs. \<not> test (fst kv) \<Longrightarrow> firstMatch test kvs cur = cur"
  by (induction kvs) auto

lemma latestLoop_none:
  "\<forall>kv\<in>set kvs. extractVersion (fst kv) = [] \<Longrightarrow> latestLoop kvs acc = acc"
  by (induction kvs acc rule: latestLoop.induct) auto

lemma latestLoop_cases:
  "(latestLoop kvs (lv, lid) = (lv, lid) \<and>
      (\<forall>kv\<in>set kvs. extractVersion (fst kv) \<noteq> [] \<longrightarrow>
         lv \<noteq> [] \<and> compareVersions (extractVersion (fst kv)) lv \<le> 0)) \<or>
   (\<exists>before n i after. kvs = before @ (n, i) # after \<and> extractVersion n \<noteq> [] \<and>
      latestLoop kvs (lv, lid) = (extractVersion n, i) \<and>
      (lv = [] \<or> compareVersions (extractVersion n) lv > 0) \<and>
      (\<forall>kv\<in>set before. extractVersion (fst kv) \<noteq> [] \<longrightarrow>
         compareVersions (extractVersion (fst kv)) (extractVersion n) < 0) \<and>
      (\<forall>kv\<in>set after. extractVersion (fst kv) \<noteq> [] \<longrightarrow>
         compareVersions (extractVersion (fst kv)) (extractVersion n) \<le> 0))"
  (is "?D1 kvs lv lid \<or> ?D2 kvs lv lid")
proof (induction kvs arbitrary: lv lid)
  case Nil
  then show ?case by simp
next
  case (Cons kv0 rest)
  obtain n0 i0 where kv0: "kv0 = (n0, i0)" by (cases kv0)
  let ?v0 = "extractVersion n0"
  show ?case
  proof (cases "?v0 = []")
    case True
    then have step: "latestLoop (kv0 # rest) (lv, lid) = latestLoop rest (lv, lid)"
      by (simp add: kv0)
    from Cons.IH [of lv lid] show ?thesis
    proof
      assume "?D1 rest lv lid"
      then have "?D1 (kv0 # rest) lv lid" using True step kv0 by simp
      then show ?thesis ..
    next
      assume "?D2 rest lv lid"
      then obtain before n i after where h: "rest = before @ (n, i) # after"
        "extractVersion n \<noteq> []" "latestLoop rest (lv, lid) = (extractVersion n, i)"
        "lv = [] \<or> compareVersions (extractVersion n) lv > 0"
        "\<forall>kv\<in>set before. extractVersion (fst kv) \<noteq> [] \<longrightarrow>
           compareVersions (extractVersion (fst kv)) (extractVersion n) < 0"
        "\<forall>kv\<in>set after. extractVersion (fst kv) \<noteq> [] \<longrightarrow>
           compareVersions (extractVersion (fst kv)) (extractVersion n) \<le> 0"
        by blast
      have "kv0 # rest = (kv0 # before) @ (n, i) # after" using h(1) by simp
      moreover have "\<forall>kv\<in>set (kv0 # before). extractVersion (fst kv) \<noteq> [] \<longrightarrow>
           compareVersions (extractVersion (fst kv)) (extractVersion n) < 0"
        using h(5) True kv0 by simp
      moreover have "latestLoop (kv0 # rest) (lv, lid) = (extractVersion n, i)"
        using step h(3) by simp
      ultimately have "?D2 (kv0 # rest) lv lid"
        using h(2,4,6) by blast
      then show ?thesis ..
    qed
  next
    case False
    show ?thesis
    proof (cases "lv = [] \<or> compareVersions ?v0 lv > 0")
      case True
      then have step: "latestLoop (kv0 # rest) (lv, lid) = latestLoop rest (?v0, i0)"
        using False by (simp add: kv0)
      from Cons.IH [of ?v0 i0] show ?thesis
      proof
        assume d1: "?D1 rest ?v0 i0"
        have "kv0 # rest = [] @ (n0, i0) # rest" by (simp add: kv0)
        moreover have "latestLoop (kv0 # rest) (lv, lid) = (?v0, i0)" using d1 step by simp
        moreover have "\<forall>kv\<in>set rest. extractVersion (fst kv) \<noteq> [] \<longrightarrow>
           compareVersions (extractVersion (fst kv)) ?v0 \<le> 0" using d1 by blast
        moreover have "\<forall>kv\<in>set ([] :: gomap). extractVersion (fst kv) \<noteq> [] \<longrightarrow>
           compareVersions (extractVersion (fst kv)) ?v0 < 0" by simp
        ultimately have "?D2 (kv0 # rest) lv lid" using False True by blast
        then show ?thesis ..
      next
        assume "?D2 rest ?v0 i0"
        then obtain before n i after where h: "rest = before @ (n, i) # after"
          "extractVersion n \<noteq> []" "latestLoop rest (?v0, i0) = (extractVersion n, i)"
          "compareVersions (extractVersion n) ?v0 > 0"
          "\<forall>kv\<in>set before. extractVersion (fst kv) \<noteq> [] \<longrightarrow>
             compareVersions (extractVersion (fst kv)) (extractVersion n) < 0"
          "\<forall>kv\<in>set after. extractVersion (fst kv) \<noteq> [] \<longrightarrow>
             compareVersions (extractVersion (fst kv)) (extractVersion n) \<le> 0"
          using False by blast
        have lt0: "compareVersions ?v0 (extractVersion n) < 0"
          using h(4) compareVersions_order [of ?v0 "extractVersion n" ?v0] by linarith
        have "kv0 # rest = (kv0 # before) @ (n, i) # after" using h(1) by simp
        moreover have "\<forall>kv\<in>set (kv0 # before). extractVersion (fst kv) \<noteq> [] \<longrightarrow>
             compareVersions (extractVersion (fst kv)) (extractVersion n) < 0"
          using h(5) lt0 kv0 by simp
        moreover have "lv = [] \<or> compareVersions (extractVersion n) lv > 0"
        proof (cases "lv = []")
          case True
          then show ?thesis by simp
        next
          case lv: False
          with True have "compareVersions ?v0 lv > 0" by simp
          then have "compareVersions lv ?v0 < 0"
            using compareVersions_order [of lv ?v0 lv] by linarith
          from compareVersions_less_le [OF this] lt0
          have "compareVersions lv (extractVersion n) < 0" by simp
          then show ?thesis
            using compareVersions_order [of lv "extractVersion n" lv] by linarith
        qed
        moreover have "latestLoop (kv0 # rest) (lv, lid) = (extractVersion n, i)"
          using step h(3) by simp
        ultimately have "?D2 (kv0 # rest) lv lid"
          using h(2,6) by blast
        then show ?thesis ..
      qed
    next
      case nb: False
      then have lv: "lv \<noteq> []" and le0: "compareVersions ?v0 lv \<le> 0" by auto
      have step: "latestLoop (kv0 # rest) (lv, lid) = latestLoop rest (lv, lid)"
        using False nb by (simp add: kv0)
      from Cons.IH [of lv lid] show ?thesis
      proof
        assume "?D1 rest lv lid"
        then have "?D1 (kv0 # rest) lv lid" using step lv le0 kv0 by simp
        then show ?thesis ..
      next
        assume "?D2 rest lv lid"
        then obtain before n i after where h: "rest = before @ (n, i) # after"
          "extractVersion n \<noteq> []" "latestLoop rest (lv, lid) = (extractVersion n, i)"
          "compareVersions (extractVersion n) lv > 0"
          "\<forall>kv\<in>set before. extractVersion (fst kv) \<noteq> [] \<longrightarrow>
             compareVersions (extractVersion (fst kv)) (extractVersion n) < 0"
          "\<forall>kv\<in>set after. extractVersion (fst kv) \<noteq> [] \<longrightarrow>
             compareVersions (extractVersion (fst kv)) (extractVersion n) \<le> 0"
          using lv by blast
        have "compareVersions lv (extractVersion n) < 0"
          using h(4) compareVersions_order [of lv "extractVersion n" lv] by linarith
        from compareVersions_le_less [OF le0 this]
        have lt0: "compareVersions ?v0 (extractVersion n) < 0" .
        have "kv0 # rest = (kv0 # before) @ (n, i) # after" using h(1) by simp
        moreover have "\<forall>kv\<in>set (kv0 # before). extractVersion (fst kv) \<noteq> [] \<longrightarrow>
             compareVersions (extractVersion (fst kv)) (extractVersion n) < 0"
          using h(5) lt0 kv0 by simp
        moreover have "latestLoop (kv0 # rest) (lv, lid) = (extractVersion n, i)"
          using step h(3) by simp
        ultimately have "?D2 (kv0 # rest) lv lid"
          using h(2,4,6) by blast
        then show ?thesis ..
      qed
    qed
  qed
qed

lemma resolveField_release:
  "k8sReleaseFieldID (resolveField ord board field t) =
     (if Contains (ToLower (Name field)) ''k8s release'' then ID field else k8sReleaseFieldID t)"
  "k8sReleaseValueID (resolveField ord board field t) =
     (if Contains (ToLower (Name field)) ''k8s release'' \<and>
         snd (latestLoop (ord Release (Options field)) ([], StrID [])) \<noteq> StrID []
      then snd (latestLoop (ord Release (Options field)) ([], StrID []))
      else k8sReleaseValueID t)"
  by (simp_all add: resolveField_def resolveRelease_def Let_def)

lemma resolveField_view:
  "viewFieldID (resolveField ord board field t) =
     (if Contains (ToLower (Name field)) ''view'' then ID field else viewFieldID t)"
  "viewValueID (resolveField ord board field t) =
     (if Contains (ToLower (Name field)) ''view''
      then firstMatch viewTest (ord View (Options field)) (viewValueID t)
      else viewValueID t)"
  by (simp_all add: resolveField_def resolveRelease_def Let_def)

lemma resolveField_board:
  "boardFieldID (resolveField ord board field t) =
     (if Contains (ToLower (Name field)) ''board'' then ID field else boardFieldID t)"
  "boardValueID (resolveField ord board field t) =
     (if Contains (ToLower (Name field)) ''board''
      then firstMatch (boardTest board) (ord Board (Options field)) (boardValueID t)
      else boardValueID t)"
  by (simp_all add: resolveField_def resolveRelease_def Let_def)

lemma resolveField_status:
  "statusFieldID (resolveField ord board field t) =
     (if Contains (ToLower (Name field)) ''status'' then ID field else statusFieldID t)"
  "statusValueID (resolveField ord board field t) =
     (if Contains (ToLower (Name field)) ''status''
      then firstMatch statusTest (ord Status (Options field)) (statusValueID t)
      else statusValueID t)"
  by (simp_all add: resolveField_def resolveRelease_def Let_def)

lemmas resolveField_simps = resolveField_release resolveField_view resolveField_board
  resolveField_status

lemma resolveField_role:
  assumes "Contains (ToLower (Name field)) (roleKey r)"
  shows "fieldIDOf r (resolveField ord board field t) = ID field"
    and "(\<forall>kv\<in>set (ord r (Options field)). \<not> roleTest board r (fst kv)) \<Longrightarrow>
         valueIDOf r (resolveField ord board field t) = valueIDOf r t"
  using assms
  by (cases r; simp add: resolveField_simps firstMatch_none latestLoop_none)+

lemma twoStatus_fields: "collectFields twoStatusNodes [] =
   [\<lparr>ID = StrID ''F1'', Name = ''Status'', Options = [(''Drafting'', StrID ''O1'')]\<rparr>,
    \<lparr>ID = StrID ''F2'', Name = ''Old status'', Options = [(''Done'', StrID ''O2'')]\<rparr>]"
  by (simp add: twoStatusNodes_def node_eval)

lemma twoStatus_resolved:
  "resolveLoop visitStored ''sig-release-master-blocking'' 0 (collectFields twoStatusNodes []) noTargets =
     noTargets\<lparr>statusFieldID := StrID ''F2'', statusValueID := StrID ''O1''\<rparr>"
  unfolding twoStatus_fields by (simp add: resolve_eval)

lemma latestLoop_selected:
  assumes "\<exists>kv\<in>set kvs. extractVersion (fst kv) \<noteq> []"
  shows "\<exists>before n i after. kvs = before @ (n, i) # after \<and> extractVersion n \<noteq> [] \<and>
      latestLoop kvs ([], StrID []) = (extractVersion n, i) \<and>
      (\<forall>kv\<in>set before. extractVersion (fst kv) \<noteq> [] \<longrightarrow>
         compareVersions (extractVersion (fst kv)) (extractVersion n) < 0) \<and>
      (\<forall>kv\<in>set after. extractVersion (fst kv) \<noteq> [] \<longrightarrow>
         compareVersions (extractVersion (fst kv)) (extractVersion n) \<le> 0)"
  using latestLoop_cases [of kvs "[]" "StrID []"] assms by blast

lemma ev_130: "extractVersion ''v1.30'' = ''1.30''"
  and ev_132: "extractVersion ''v1.32'' = ''1.32''"
  and ev_stable: "extractVersion ''stable'' = []"
  by (simp_all add: extract_eval)

lemma compareVersions_refl: "compareVersions a a = 0"
  using compareVersions_order [of a a a] by blast

lemma cv_132_130: "compareVersions ''1.32'' ''1.30'' = 1"
  by (simp add: version_eval)

lemma latestLoop_example:
  assumes "mset kvs = mset [(''v1.30'', id1), (''v1.32'', id2), (''stable'', id3)]"
  shows "snd (latestLoop kvs ([], StrID [])) = id2"
proof -
  have st: "set kvs = {(''v1.30'', id1), (''v1.32'', id2), (''stable'', id3)}"
    using mset_eq_setD [OF assms] by simp
  then have "\<exists>kv\<in>set kvs. extractVersion (fst kv) \<noteq> []"
    by (simp add: ev_130)
  from latestLoop_selected [OF this]
  obtain before n i after where h: "kvs = before @ (n, i) # after" "extractVersion n \<noteq> []"
    "latestLoop kvs ([], StrID []) = (extractVersion n, i)"
    "\<forall>kv\<in>set before. extractVersion (fst kv) \<noteq> [] \<longrightarrow>
         compareVersions (extractVersion (fst kv)) (extractVersion n) < 0"
    "\<forall>kv\<in>set after. extractVersion (fst kv) \<noteq> [] \<longrightarrow>
         compareVersions (extractVersion (fst kv)) (extractVersion n) \<le> 0"
    by blast
  have all: "\<forall>kv\<in>set kvs. extractVersion (fst kv) \<noteq> [] \<longrightarrow>
         compareVersions (extractVersion (fst kv)) (extractVersion n) \<le> 0"
  proof
    fix kv assume "kv \<in> set kvs"
    then consider "kv \<in> set before" | "kv = (n, i)" | "kv \<in> set after"
      using h(1) by auto
    then show "extractVersion (fst kv) \<noteq> [] \<longrightarrow>
         compareVersions (extractVersion (fst kv)) (extractVersion n) \<le> 0"
    proof cases
      case 1
      then show ?thesis using h(4) by fastforce
    next
      case 2
      then show ?thesis by (simp add: compareVersions_refl)
    next
      case 3
      then show ?thesis using h(5) by blast
    qed
  qed
  have "(n, i) \<in> set kvs" using h(1) by simp
  then have mem: "(n, i) \<in> {(''v1.30'', id1), (''v1.32'', id2), (''stable'', id3)}"
    unfolding st .
  have ne_stable: "n \<noteq> ''stable''"
    using h(2) ev_stable by blast
  have "(''v1.32'', id2) \<in> set kvs" unfolding st by blast
  from bspec [OF all this] have c: "compareVersions ''1.32'' (extractVersion n) \<le> 0"
    by (simp add: ev_132)
  have ne_130: "n \<noteq> ''v1.30''"
  proof
    assume "n = ''v1.30''"
    with c have "compareVersions ''1.32'' ''1.30'' \<le> 0" by (simp only: ev_130)
    then show False by (simp only: cv_132_130)
  qed
  from mem ne_stable ne_130 have "i = id2" by blast
  then show ?thesis by (simp add: h(3))
qed

lemma tie_fields: "collectFields tieNodes [] =
   [\<lparr>ID = StrID ''F_release'', Name = ''K8s Release'',
      Options = [(''v1.32'', StrID ''id1''), (''1.32'', StrID ''id2'')]\<rparr>]"
  by (simp add: tieNodes_def node_eval)

lemma rangeOrder_examples: "rangeOrder visitStored" "rangeOrder visitReversed"
  by (simp_all add: rangeOrder_def visitStored_def visitReversed_def)

subsection \<open>Claims about the resolver\<close>

text \<open>
  Claim C10. For every role, a field whose lower-cased name contains the key of the role
  overwrites the field identifier resolved for that role, while the value identifier
  keeps what an earlier field gave it when no option of this field passes the test of
  the role. So the update for a role can pair the field identifier of one discovered
  field with the option identifier of a different, earlier one: with the two Status
  fields \<open>F1\<close> (option \<open>Drafting\<close>, \<open>O1\<close>) and \<open>F2\<close> (option \<open>Done\<close>, \<open>O2\<close>) the
  operation sends the update of field \<open>F2\<close> to option \<open>O1\<close>.
\<close>

theorem later_field_overwrites_fieldID:
  "(Contains (ToLower (Name field)) (roleKey r) \<longrightarrow>
      fieldIDOf r (resolveField ord board field t) = ID field \<and>
      ((\<forall>kv\<in>set (ord r (Options field)). \<not> roleTest board r (fst kv)) \<longrightarrow>
         valueIDOf r (resolveField ord board field t) = valueIDOf r t)) \<and>
   map ID (collectFields twoStatusNodes []) = [StrID ''F1'', StrID ''F2''] \<and>
   map Options (collectFields twoStatusNodes []) =
     [[(''Drafting'', StrID ''O1'')], [(''Done'', StrID ''O2'')]] \<and>
   UpdateProjectV2ItemFieldValue (StrID PROJECT_ID) (StrID ''ITEM'') (StrID ''F2'') ''O1''
     \<in> set (trace (snd (CreateDraftIssue (serving twoStatusNodes NilID) visitStored
                 (NewProjectManager ''token'') ''title'' ''body''
                 ''sig-release-master-blocking'' emptyWorld)))"
proof -
  let ?g = "NewProjectManager ''token''"
  let ?cl = "\<lparr>AccessToken = ''token''\<rparr>"
  let ?srv = "serving twoStatusNodes NilID"
  have c: "githubClient ?g = Some ?cl" by (simp add: NewProjectManager_def)
  have p: "projectID ?g = PROJECT_ID" by (simp add: NewProjectManager_def)
  have q: "onQuery ?srv ?cl (trace emptyWorld) (Query (StrID (projectID ?g))) = Inr twoStatusNodes"
    by (simp add: serving_def)
  have d: "onDraft ?srv ?cl (trace emptyWorld @ [Query (StrID (projectID ?g))])
             (AddProjectV2DraftIssue (StrID (projectID ?g)) ''title'' ''body'') =
           Inr (StrID ''ITEM'')"
    by (simp add: serving_def)
  have "UpdateProjectV2ItemFieldValue (StrID PROJECT_ID) (StrID ''ITEM'') (StrID ''F2'') ''O1''
     \<in> set (trace (snd (CreateDraftIssue ?srv visitStored ?g ''title'' ''body''
                 ''sig-release-master-blocking'' emptyWorld)))"
    unfolding CreateDraftIssue_ok [OF c q d] snd_conv updateLoop_trace twoStatus_resolved
    by (simp add: fieldUpdates_def noTargets_def updateRequest_def p)
  moreover have "map ID (collectFields twoStatusNodes []) = [StrID ''F1'', StrID ''F2'']"
    "map Options (collectFields twoStatusNodes []) =
       [[(''Drafting'', StrID ''O1'')], [(''Done'', StrID ''O2'')]]"
    by (simp_all add: twoStatus_fields)
  ultimately show ?thesis
    using resolveField_role [of field r ord board t] by blast
qed

theorem later_field_overwrites_fieldID_witness:
  "Contains (ToLower ''Old status'') (roleKey Status) \<and>
   \<not> roleTest ''sig-release-master-blocking'' Status ''Done'' \<and>
   fieldIDOf Status
     (resolveField (visitStored 1) ''sig-release-master-blocking''
        \<lparr>ID = StrID ''F2'', Name = ''Old status'', Options = [(''Done'', StrID ''O2'')]\<rparr>
        (noTargets\<lparr>statusFieldID := StrID ''F1'', statusValueID := StrID ''O1''\<rparr>)) = StrID ''F2'' \<and>
   valueIDOf Status
     (resolveField (visitStored 1) ''sig-release-master-blocking''
        \<lparr>ID = StrID ''F2'', Name = ''Old status'', Options = [(''Done'', StrID ''O2'')]\<rparr>
        (noTargets\<lparr>statusFieldID := StrID ''F1'', statusValueID := StrID ''O1''\<rparr>)) = StrID ''O1''"
proof -
  let ?f = "\<lparr>ID = StrID ''F2'', Name = ''Old status'', Options = [(''Done'', StrID ''O2'')]\<rparr>"
  let ?t = "noTargets\<lparr>statusFieldID := StrID ''F1'', statusValueID := StrID ''O1''\<rparr>"
  have k: "Contains (ToLower (Name ?f)) (roleKey Status)"
    by (simp add: ToLower_def toLowerChar_def)
  have n: "\<not> roleTest ''sig-release-master-blocking'' Status ''Done''"
    by (simp add: statusTest_def ToLower_def toLowerChar_def)
  then have a: "\<forall>kv\<in>set (visitStored 1 Status (Options ?f)).
      \<not> roleTest ''sig-release-master-blocking'' Status (fst kv)"
    by (simp add: visitStored_def)
  from later_field_overwrites_fieldID
    [of ?f Status "visitStored 1" "''sig-release-master-blocking''" ?t] k a
  have "fieldIDOf Status (resolveField (visitStored 1) ''sig-release-master-blocking'' ?f ?t) = ID ?f"
    "valueIDOf Status (resolveField (visitStored 1) ''sig-release-master-blocking'' ?f ?t) =
       valueIDOf Status ?t"
    by blast+
  with k n show ?thesis by simp
qed

text \<open>
  Claim C3, as amended. For every field whose lower-cased name contains \<open>k8s release\<close>
  the resolver takes it as the Release field, runs \<open>extractVersion\<close> on the name of
  every option, ignores the options that do not parse, and selects an option whose
  version is maximal under \<open>compareVersions\<close>; among options of equal maximal version
  it selects the one visited first, in the order in which the loop over the option map
  visits the entries, which Go leaves unspecified. When no option parses, the Release
  value keeps what it had. For the options \<open>v1.30: id1\<close>, \<open>v1.32: id2\<close>,
  \<open>stable: id3\<close> the selection is \<open>id2\<close> in every order.
\<close>

theorem release_latest_version:
  "(Contains (ToLower (Name field)) ''k8s release'' \<longrightarrow> kvs = ord Release (Options field) \<longrightarrow>
      k8sReleaseFieldID (resolveField ord board field t) = ID field \<and>
      ((\<forall>kv\<in>set kvs. extractVersion (fst kv) = []) \<longrightarrow>
         k8sReleaseValueID (resolveField ord board field t) = k8sReleaseValueID t) \<and>
      ((\<exists>kv\<in>set kvs. extractVersion (fst kv) \<noteq> []) \<longrightarrow>
         (\<exists>before n i after. kvs = before @ (n, i) # after \<and> extractVersion n \<noteq> [] \<and>
            (\<forall>kv\<in>set before. extractVersion (fst kv) \<noteq> [] \<longrightarrow>
               compareVersions (extractVersion (fst kv)) (extractVersion n) < 0) \<and>
            (\<forall>kv\<in>set after. extractVersion (fst kv) \<noteq> [] \<longrightarrow>
               compareVersions (extractVersion (fst kv)) (extractVersion n) \<le> 0) \<and>
            k8sReleaseValueID (resolveField ord board field t) =
              (if i \<noteq> StrID [] then i else k8sReleaseValueID t)))) \<and>
   (mset kvs0 = mset [(''v1.30'', id1), (''v1.32'', id2), (''stable'', id3)] \<longrightarrow>
      snd (latestLoop kvs0 ([], StrID [])) = id2) \<and>
   (rangeOrder ord0 \<longrightarrow>
      k8sReleaseValueID (resolveLoop ord0 board0 0 (collectFields demoNodes []) noTargets) =
        StrID ''id2'')"
proof (intro conjI impI)
  assume k: "Contains (ToLower (Name field)) ''k8s release''"
    and kvs: "kvs = ord Release (Options field)"
  show "k8sReleaseFieldID (resolveField ord board field t) = ID field"
    using k by (simp add: resolveField_release)
  show "k8sReleaseValueID (resolveField ord board field t) = k8sReleaseValueID t"
    if "\<forall>kv\<in>set kvs. extractVersion (fst kv) = []"
    using that k kvs by (simp add: resolveField_release latestLoop_none)
  show "\<exists>before n i after. kvs = before @ (n, i) # after \<and> extractVersion n \<noteq> [] \<and>
            (\<forall>kv\<in>set before. extractVersion (fst kv) \<noteq> [] \<longrightarrow>
               compareVersions (extractVersion (fst kv)) (extractVersion n) < 0) \<and>
            (\<forall>kv\<in>set after. extractVersion (fst kv) \<noteq> [] \<longrightarrow>
               compareVersions (extractVersion (fst kv)) (extractVersion n) \<le> 0) \<and>
            k8sReleaseValueID (resolveField ord board field t) =
              (if i \<noteq> StrID [] then i else k8sReleaseValueID t)"
    if "\<exists>kv\<in>set kvs. extractVersion (fst kv) \<noteq> []"
  proof -
    from latestLoop_selected [OF that]
    obtain before n i after where h: "kvs = before @ (n, i) # after" "extractVersion n \<noteq> []"
      "latestLoop kvs ([], StrID []) = (extractVersion n, i)"
      "\<forall>kv\<in>set before. extractVersion (fst kv) \<noteq> [] \<longrightarrow>
           compareVersions (extractVersion (fst kv)) (extractVersion n) < 0"
      "\<forall>kv\<in>set after. extractVersion (fst kv) \<noteq> [] \<longrightarrow>
           compareVersions (extractVersion (fst kv)) (extractVersion n) \<le> 0"
      by blast
    have "k8sReleaseValueID (resolveField ord board field t) =
              (if i \<noteq> StrID [] then i else k8sReleaseValueID t)"
      using k kvs h(3) by (simp add: resolveField_release)
    with h(1,2,4,5) show ?thesis by blast
  qed
next
  assume "mset kvs0 = mset [(''v1.30'', id1), (''v1.32'', id2), (''stable'', id3)]"
  then show "snd (latestLoop kvs0 ([], StrID [])) = id2" by (rule latestLoop_example)
next
  assume "rangeOrder ord0"
  then have "mset (ord0 0 Release
      [(''v1.30'', StrID ''id1''), (''v1.32'', StrID ''id2''), (''stable'', StrID ''id3'')]) =
     mset [(''v1.30'', StrID ''id1''), (''v1.32'', StrID ''id2''), (''stable'', StrID ''id3'')]"
    by (simp add: rangeOrder_def)
  from latestLoop_example [OF this]
  show "k8sReleaseValueID (resolveLoop ord0 board0 0 (collectFields demoNodes []) noTargets) =
        StrID ''id2''"
    unfolding demo_fields
    by (simp add: resolveField_release ToLower_def toLowerChar_def)
qed

theorem release_latest_version_witness:
  "Contains (ToLower ''K8s Release'') ''k8s release'' \<and>
   rangeOrder visitReversed \<and>
   k8sReleaseFieldID
     (resolveField (visitStored 0) ''sig-release-master-blocking''
        \<lparr>ID = StrID ''F_release'', Name = ''K8s Release'',
          Options = [(''v1.30'', StrID ''id1''), (''v1.32'', StrID ''id2''),
                     (''stable'', StrID ''id3'')]\<rparr> noTargets) = StrID ''F_release'' \<and>
   snd (latestLoop [(''stable'', StrID ''id3''), (''v1.32'', StrID ''id2''), (''v1.30'', StrID ''id1'')]
          ([], StrID [])) = StrID ''id2'' \<and>
   k8sReleaseValueID
     (resolveLoop visitReversed ''sig-release-master-blocking'' 0 (collectFields demoNodes [])
        noTargets) = StrID ''id2''"
proof -
  let ?f = "\<lparr>ID = StrID ''F_release'', Name = ''K8s Release'',
          Options = [(''v1.30'', StrID ''id1''), (''v1.32'', StrID ''id2''),
                     (''stable'', StrID ''id3'')]\<rparr>"
  let ?rev = "[(''stable'', StrID ''id3''), (''v1.32'', StrID ''id2''), (''v1.30'', StrID ''id1'')]"
  have k: "Contains (ToLower (Name ?f)) ''k8s release''"
    by (simp add: ToLower_def toLowerChar_def)
  have m: "mset ?rev =
     mset [(''v1.30'', StrID ''id1''), (''v1.32'', StrID ''id2''), (''stable'', StrID ''id3'')]"
    by simp
  note claim = release_latest_version
    [of ?f "visitStored 0 Release (Options ?f)" "visitStored 0" "''sig-release-master-blocking''"
        noTargets ?rev "StrID ''id1''" "StrID ''id2''" "StrID ''id3''" visitReversed
        "''sig-release-master-blocking''"]
  have 1: "k8sReleaseFieldID (resolveField (visitStored 0) ''sig-release-master-blocking'' ?f
             noTargets) = ID ?f"
    using claim k by blast
  have 2: "snd (latestLoop ?rev ([], StrID [])) = StrID ''id2''"
    using claim m by blast
  have 3: "k8sReleaseValueID
     (resolveLoop visitReversed ''sig-release-master-blocking'' 0 (collectFields demoNodes [])
        noTargets) = StrID ''id2''"
    using claim rangeOrder_examples(2) by blast
  from k 1 2 3 rangeOrder_examples(2) show ?thesis by simp
qed

text \<open>
  Claim C3 as stated resolves ties by discovery order. The field below is discovered
  with \<open>v1.32: id1\<close> before \<open>1.32: id2\<close>, two options of equal version; both orders of
  visiting the map are admissible, and they select different options.
\<close>

theorem release_tie_counterexample:
  "rangeOrder visitStored \<and> rangeOrder visitReversed \<and>
   map SingleSelect_Options tieNodes = [[(StrID ''id1'', ''v1.32''), (StrID ''id2'', ''1.32'')]] \<and>
   compareVersions (extractVersion ''v1.32'') (extractVersion ''1.32'') = 0 \<and>
   k8sReleaseValueID (resolveLoop visitStored [] 0 (collectFields tieNodes []) noTargets) =
     StrID ''id1'' \<and>
   k8sReleaseValueID (resolveLoop visitReversed [] 0 (collectFields tieNodes []) noTargets) =
     StrID ''id2''"
proof -
  have "compareVersions (extractVersion ''v1.32'') (extractVersion ''1.32'') = 0"
    by (simp add: extract_eval version_eval)
  moreover have "map SingleSelect_Options tieNodes =
      [[(StrID ''id1'', ''v1.32''), (StrID ''id2'', ''1.32'')]]"
    by (simp add: tieNodes_def singleSelect_def)
  moreover have "k8sReleaseValueID (resolveLoop visitStored [] 0 (collectFields tieNodes []) noTargets) =
     StrID ''id1''"
    unfolding tie_fields by (simp add: resolve_eval)
  moreover have "k8sReleaseValueID (resolveLoop visitReversed [] 0 (collectFields tieNodes []) noTargets) =
     StrID ''id2''"
    unfolding tie_fields by (simp add: resolve_eval)
  ultimately show ?thesis using rangeOrder_examples by blast
qed

text \<open>
  Claim C4, as amended. For every field whose lower-cased name contains \<open>board\<close> the
  resolver takes it as the Board field and selects the first visited option whose
  lower-cased display name is part of the board string as the caller supplied it (the
  board string itself is not lower-cased); when there is none, the Board value keeps
  what it had, which is no value unless an earlier Board field set one. For a board
  string that is already in lower case this is the selection the specification
  describes.
\<close>

theorem board_option_selected:
  "Contains (ToLower (Name field)) ''board'' \<longrightarrow>
     boardFieldID (resolveField ord board field t) = ID field \<and>
     boardValueID (resolveField ord board field t) =
       (case List.find (\<lambda>kv. Contains board (ToLower (fst kv))) (ord Board (Options field)) of
          Some kv \<Rightarrow> snd kv
        | None \<Rightarrow> boardValueID t) \<and>
     (ToLower board = board \<longrightarrow> boardValueID t = NilID \<longrightarrow>
        boardValueID (resolveField ord board field t) =
          boardSelect_spec board (ord Board (Options field)))"
  by (simp add: resolveField_board firstMatch_find boardTest_def boardSelect_spec_def)

theorem board_option_selected_witness:
  "Contains (ToLower ''Testgrid Board'') ''board'' \<and>
   ToLower ''sig-release-master-informing'' = ''sig-release-master-informing'' \<and>
   boardFieldID
     (resolveField (visitStored 2) ''sig-release-master-informing''
        \<lparr>ID = StrID ''F_board'', Name = ''Testgrid Board'',
          Options = [(''Master-Blocking'', StrID ''B1''), (''Master-Informing'', StrID ''B2'')]\<rparr>
        noTargets) = StrID ''F_board'' \<and>
   boardValueID
     (resolveField (visitStored 2) ''sig-release-master-informing''
        \<lparr>ID = StrID ''F_board'', Name = ''Testgrid Board'',
          Options = [(''Master-Blocking'', StrID ''B1''), (''Master-Informing'', StrID ''B2'')]\<rparr>
        noTargets) = StrID ''B2''"
proof -
  let ?f = "\<lparr>ID = StrID ''F_board'', Name = ''Testgrid Board'',
          Options = [(''Master-Blocking'', StrID ''B1''), (''Master-Informing'', StrID ''B2'')]\<rparr>"
  have k: "Contains (ToLower (Name ?f)) ''board''"
    by (simp add: ToLower_def toLowerChar_def)
  have l: "ToLower ''sig-release-master-informing'' = ''sig-release-master-informing''"
    by (simp add: ToLower_def toLowerChar_def)
  have n: "boardValueID noTargets = NilID" by (simp add: noTargets_def)
  note claim = board_option_selected
    [of ?f "visitStored 2" "''sig-release-master-informing''" noTargets]
  have 1: "boardFieldID (resolveField (visitStored 2) ''sig-release-master-informing'' ?f noTargets)
             = ID ?f"
    using claim k by blast
  have "boardValueID (resolveField (visitStored 2) ''sig-release-master-informing'' ?f noTargets) =
          boardSelect_spec ''sig-release-master-informing'' (visitStored 2 Board (Options ?f))"
    using claim k l n by blast
  also have "\<dots> = StrID ''B2''"
    by (simp add: boardSelect_spec_def visitStored_def ToLower_def toLowerChar_def)
  finally show ?thesis using k l 1 by simp
qed

text \<open>
  Claim C4 as stated compares with the lower-cased board string. For the board string
  \<open>Master-Blocking\<close> and the option \<open>master-blocking\<close> that comparison selects the
  option, and the resolver selects nothing.
\<close>

theorem board_case_counterexample:
  "Contains (ToLower ''Testgrid Board'') ''board'' \<and>
   boardSelect_spec ''Master-Blocking'' [(''master-blocking'', StrID ''B1'')] = StrID ''B1'' \<and>
   boardValueID
     (resolveField (visitStored 0) ''Master-Blocking''
        \<lparr>ID = StrID ''F_board'', Name = ''Testgrid Board'',
          Options = [(''master-blocking'', StrID ''B1'')]\<rparr> noTargets) = NilID"
  by (simp add: resolveField_board boardSelect_spec_def boardTest_def visitStored_def
      noTargets_def ToLower_def toLowerChar_def)

end
